theory Spec2Isabelle
  imports Complex_Main
begin

section \<open>NumBAT gain assembly and mode symmetries (backend/integration.py)\<close>

text \<open>
  A shallow embedding of \<^verbatim>\<open>gain_and_qs\<close> and \<^verbatim>\<open>symmetries\<close>.

  Numbers are the exact reals and complex numbers: rounding and overflow of the
  floating-point arithmetic are not part of the model. What numpy does on a zero divisor
  is: it raises nothing and stores a non-finite value (\<^verbatim>\<open>inf\<close> or \<^verbatim>\<open>nan\<close>); the model
  has the value \<open>NonFinite\<close> for that.

  The Fortran routines of \<^verbatim>\<open>NumBAT\<close> are outside the module. They are a parameter
  of the model: a record of functions from the arguments of a call to its outcome, which
  is the returned array or a \<^verbatim>\<open>KeyboardInterrupt\<close> raised during the call.
\<close>

subsection \<open>Python values, errors, arrays\<close>

datatype py_error =
  IndexError | KeyError | TypeError | ZeroDivisionError | UnboundLocalError | ValueError

text \<open>A mode selector is documented as \<^verbatim>\<open>int/string\<close>.\<close>

datatype py_ival = PyInt int | PyStr string

text \<open>The result of a numpy division: a number, or \<^verbatim>\<open>inf\<close>/\<^verbatim>\<open>nan\<close>.\<close>

datatype 'a npval = Num 'a | NonFinite

definition np_divide :: "'a::field \<Rightarrow> 'a \<Rightarrow> 'a npval" where
  "np_divide a b = (if b = 0 then NonFinite else Num (a / b))"

fun np_real :: "complex npval \<Rightarrow> real npval" where
  "np_real (Num z) = Num (Re z)"
| "np_real NonFinite = NonFinite"

fun np_scale :: "real \<Rightarrow> real npval \<Rightarrow> real npval" where
  "np_scale c (Num x) = Num (c * x)"
| "np_scale c NonFinite = NonFinite"

text \<open>
  A complex array of four axes, \<^verbatim>\<open>[component, node, mode, element]\<close>: its shape and
  its entries. An index read from a table is a Python integer, and numpy counts a
  negative one from the end.
\<close>

record ndarray4 =
  shape4 :: "nat \<times> nat \<times> nat \<times> nat"
  elems4 :: "nat \<times> nat \<times> nat \<times> nat \<Rightarrow> complex"

definition zeros4 :: "nat \<times> nat \<times> nat \<times> nat \<Rightarrow> ndarray4" where
  "zeros4 sh = \<lparr>shape4 = sh, elems4 = (\<lambda>_. 0)\<rparr>"

definition np_index :: "nat \<Rightarrow> int \<Rightarrow> py_error + nat" where
  "np_index n i =
     (if 0 \<le> i \<and> i < int n then Inr (nat i)
      else if - int n \<le> i \<and> i < 0 then Inr (nat (int n + i))
      else Inl IndexError)"

definition get4 :: "ndarray4 \<Rightarrow> nat \<Rightarrow> nat \<Rightarrow> nat \<Rightarrow> int \<Rightarrow> py_error + complex" where
  "get4 a x n ival e =
     (case shape4 a of (d0, d1, d2, d3) \<Rightarrow>
        if x < d0 \<and> n < d1 \<and> ival < d2
        then (case np_index d3 e of
                Inl err \<Rightarrow> Inl err
              | Inr e' \<Rightarrow> Inr (elems4 a (x, n, ival, e')))
        else Inl IndexError)"

definition set4 :: "ndarray4 \<Rightarrow> nat \<Rightarrow> nat \<Rightarrow> nat \<Rightarrow> nat \<Rightarrow> complex \<Rightarrow> py_error + ndarray4" where
  "set4 a x n ival e v =
     (case shape4 a of (d0, d1, d2, d3) \<Rightarrow>
        if x < d0 \<and> n < d1 \<and> ival < d2 \<and> e < d3
        then Inr (a\<lparr>elems4 := (elems4 a)((x, n, ival, e) := v)\<rparr>)
        else Inl IndexError)"

definition get1 :: "'a list \<Rightarrow> nat \<Rightarrow> py_error + 'a" where
  "get1 xs i = (if i < length xs then Inr (xs ! i) else Inl IndexError)"

text \<open>A \<^verbatim>\<open>for\<close> loop over a list that threads a state and stops at the first exception.\<close>

fun for_loop :: "('a \<Rightarrow> 's \<Rightarrow> py_error + 's) \<Rightarrow> 'a list \<Rightarrow> 's \<Rightarrow> py_error + 's" where
  "for_loop body [] s = Inr s"
| "for_loop body (x # xs) s =
     (case body x s of Inl e \<Rightarrow> Inl e | Inr s' \<Rightarrow> for_loop body xs s')"

text \<open>A loop that fills one axis of a fresh array in index order.\<close>

fun fill :: "('a \<Rightarrow> py_error + 'b) \<Rightarrow> 'a list \<Rightarrow> py_error + 'b list" where
  "fill f [] = Inr []"
| "fill f (x # xs) =
     (case f x of
        Inl e \<Rightarrow> Inl e
      | Inr y \<Rightarrow> (case fill f xs of Inl e \<Rightarrow> Inl e | Inr ys \<Rightarrow> Inr (y # ys)))"

subsection \<open>The simulation objects\<close>

text \<open>
  \<open>'m\<close> stands for the mesh tables (\<^verbatim>\<open>n_msh_pts\<close>, \<^verbatim>\<open>table_nod\<close>, \<^verbatim>\<open>type_el\<close>,
  \<^verbatim>\<open>x_arr\<close>) and \<open>'t\<close> for a material tensor; \<^verbatim>\<open>gain_and_qs\<close> hands them to the
  Fortran routines unchanged. \<^verbatim>\<open>Omega_AC\<close> is given by its value at each acoustic mode
  (numpy broadcasts it along the last axis of the overlap arrays; a scalar is the
  constant function). The field \<^verbatim>\<open>structure\<close> is named \<open>structure_obj\<close>.
\<close>

record 't struct =
  nb_typ_el :: nat
  nb_typ_el_AC :: nat
  inc_shape :: string
  linear_element_shapes :: "string list"
  curvilinear_element_shapes :: "string list"
  eta_tensor :: 't
  p_tensor :: 't

record ('m, 't) simmo =
  structure_obj :: "'t struct"
  num_modes :: nat
  n_msh_el :: nat
  mesh_tables :: 'm
  sol1 :: ndarray4
  el_convert_tbl :: "nat \<rightharpoonup> int"
  typ_el_AC :: "int list"
  n_list :: "complex list"
  EM_mode_power :: "complex list"
  AC_mode_power :: "complex list"
  omega_EM :: real
  Omega_AC :: "nat \<Rightarrow> complex"

subsection \<open>The Fortran routines and what is observed of a call\<close>

datatype 'a outcome = Returned 'a | KeyboardInterrupt

record ('m, 't) alpha_args =
  al_num_modes :: nat
  al_n_msh_el :: nat
  al_mesh :: 'm
  al_nnodes :: nat
  al_nb_typ_el_AC :: nat
  al_eta_tensor :: 't
  al_k_AC :: real
  al_Omega_AC :: "nat \<Rightarrow> complex"
  al_sol1 :: ndarray4
  al_AC_mode_power :: "complex list"

record ('m, 't) pe_args =
  pe_num_modes_pump :: nat
  pe_num_modes_Stokes :: nat
  pe_num_modes_AC :: nat
  pe_ival_pump :: int
  pe_ival_Stokes :: int
  pe_ival_AC :: int
  pe_n_msh_el :: nat
  pe_mesh :: 'm
  pe_nnodes :: nat
  pe_nb_typ_el_AC :: nat
  pe_p_tensor :: 't
  pe_k_AC :: real
  pe_pump_field :: ndarray4
  pe_Stokes_field :: ndarray4
  pe_AC_field :: ndarray4
  pe_eps_effs :: "complex list"
  pe_debug :: int

record 'm mb_args =
  mb_num_modes_pump :: nat
  mb_num_modes_Stokes :: nat
  mb_num_modes_AC :: nat
  mb_ival_pump :: int
  mb_ival_Stokes :: int
  mb_ival_AC :: int
  mb_n_msh_el :: nat
  mb_mesh :: 'm
  mb_nnodes :: nat
  mb_nb_typ_el_AC :: nat
  mb_typ_select_in :: int
  mb_typ_select_out :: int
  mb_pump_field :: ndarray4
  mb_Stokes_field :: ndarray4
  mb_AC_field :: ndarray4
  mb_eps_effs :: "complex list"
  mb_debug :: int

text \<open>
  The overlap arrays \<^verbatim>\<open>Q_PE\<close> and \<^verbatim>\<open>Q_MB\<close> have the axes
  \<^verbatim>\<open>[Stokes mode, pump mode, acoustic mode]\<close>, the loss array one entry per acoustic
  mode; a returned array is given by its entries.
\<close>

type_synonym overlap = "nat \<Rightarrow> nat \<Rightarrow> nat \<Rightarrow> complex"

record ('m, 't) kernel =
  ac_alpha_int_v2 :: "('m, 't) alpha_args \<Rightarrow> (nat \<Rightarrow> complex) outcome"
  ac_alpha_int :: "('m, 't) alpha_args \<Rightarrow> int \<Rightarrow> (nat \<Rightarrow> complex) outcome"
  photoelastic_int_v2 :: "('m, 't) pe_args \<Rightarrow> overlap outcome"
  photoelastic_int :: "('m, 't) pe_args \<Rightarrow> overlap outcome"
  moving_boundary :: "'m mb_args \<Rightarrow> overlap outcome"

text \<open>
  The trace of a run: the calls of Fortran routines, in order, and the messages printed
  on a warning or an interrupt (the banners and timings are left out).
\<close>

datatype ('m, 't) event =
  Call_ac_alpha_int_v2 "('m, 't) alpha_args"
| Call_ac_alpha_int "('m, 't) alpha_args" int
| Call_photoelastic_int_v2 "('m, 't) pe_args"
| Call_photoelastic_int "('m, 't) pe_args"
| Call_moving_boundary "'m mb_args"
| Warning_not_sure string
| Interrupted string

subsection \<open>gain_and_qs\<close>

text \<open>Lines 109-120: the mode selectors in Fortran indexing.\<close>

definition fortran_ival :: "py_ival \<Rightarrow> py_error + int" where
  "fortran_ival v =
     (if v = PyStr ''All'' then Inr (- 1)
      else (case v of PyInt i \<Rightarrow> Inr (i + 1) | PyStr s \<Rightarrow> Inl TypeError))"

definition ncomps :: nat where "ncomps = 3"
definition nnodes :: nat where "nnodes = 6"
definition Fortran_debug :: int where "Fortran_debug = 0"

text \<open>
  Lines 129-138: the EM fields in the element numbering of the acoustic mesh. The loops
  run over the element, the node, the component and then the modes of the pump and of
  the Stokes field; every read is range-checked as numpy does it. \<^verbatim>\<open>el_convert_tbl\<close>
  is a table from the acoustic to the EM element numbers, and the lookup of an element
  it does not hold raises.
\<close>

definition copy_modes ::
  "ndarray4 \<Rightarrow> nat \<Rightarrow> nat \<Rightarrow> nat \<Rightarrow> int \<Rightarrow> nat \<Rightarrow> ndarray4 \<Rightarrow> py_error + ndarray4" where
  "copy_modes src x n el new_el nmodes trimmed =
     for_loop (\<lambda>ival t.
        case get4 src x n ival new_el of
          Inl e \<Rightarrow> Inl e
        | Inr v \<Rightarrow> set4 t x n ival el v) [0..<nmodes] trimmed"

definition trim_comp ::
  "('m, 't) simmo \<Rightarrow> ('m, 't) simmo \<Rightarrow> nat \<Rightarrow> int \<Rightarrow> nat \<Rightarrow> nat \<Rightarrow>
   ndarray4 \<times> ndarray4 \<Rightarrow> py_error + ndarray4 \<times> ndarray4" where
  "trim_comp sim_EM_pump sim_EM_Stokes el new_el n x st =
     (case copy_modes (sol1 sim_EM_pump) x n el new_el (num_modes sim_EM_pump) (fst st) of
        Inl e \<Rightarrow> Inl e
      | Inr tp \<Rightarrow>
          (case copy_modes (sol1 sim_EM_Stokes) x n el new_el (num_modes sim_EM_Stokes) (snd st) of
             Inl e \<Rightarrow> Inl e
           | Inr ts \<Rightarrow> Inr (tp, ts)))"

definition trim_el ::
  "('m, 't) simmo \<Rightarrow> ('m, 't) simmo \<Rightarrow> ('m, 't) simmo \<Rightarrow> nat \<Rightarrow>
   ndarray4 \<times> ndarray4 \<Rightarrow> py_error + ndarray4 \<times> ndarray4" where
  "trim_el sim_EM_pump sim_EM_Stokes sim_AC el st =
     (case el_convert_tbl sim_AC el of
        None \<Rightarrow> Inl KeyError
      | Some new_el \<Rightarrow>
          for_loop (\<lambda>n. for_loop (trim_comp sim_EM_pump sim_EM_Stokes el new_el n) [0..<ncomps])
            [0..<nnodes] st)"

definition trim_fields ::
  "('m, 't) simmo \<Rightarrow> ('m, 't) simmo \<Rightarrow> ('m, 't) simmo \<Rightarrow> py_error + ndarray4 \<times> ndarray4" where
  "trim_fields sim_EM_pump sim_EM_Stokes sim_AC =
     for_loop (trim_el sim_EM_pump sim_EM_Stokes sim_AC) [0..<n_msh_el sim_AC]
       (zeros4 (ncomps, nnodes, num_modes sim_EM_pump, n_msh_el sim_AC),
        zeros4 (ncomps, nnodes, num_modes sim_EM_Stokes, n_msh_el sim_AC))"

text \<open>Lines 148-151: the permittivities of the material types of the acoustic domain.\<close>

definition relevant_eps_effs_of ::
  "('m, 't) simmo \<Rightarrow> ('m, 't) simmo \<Rightarrow> py_error + complex list" where
  "relevant_eps_effs_of sim_EM_pump sim_AC =
     for_loop (\<lambda>el_typ acc.
        if int el_typ + 1 \<in> set (typ_el_AC sim_AC)
        then (case get1 (n_list sim_EM_pump) el_typ of
                Inl e \<Rightarrow> Inl e
              | Inr nn \<Rightarrow> Inr (acc @ [nn ^ 2]))
        else Inr acc) [0..<nb_typ_el (structure_obj sim_EM_pump)] []"

text \<open>
  Lines 154-186: the acoustic loss. After an interrupt \<^verbatim>\<open>alpha\<close> has no value, and
  line 178 reads it. \<^verbatim>\<open>k_AC\<close> and \<^verbatim>\<open>fixed_Q\<close> are Python numbers as documented,
  so that \<^verbatim>\<open>k_AC/fixed_Q\<close> raises on a zero \<^verbatim>\<open>fixed_Q\<close>.
\<close>

definition alpha_call_args :: "('m, 't) simmo \<Rightarrow> real \<Rightarrow> ('m, 't) alpha_args" where
  "alpha_call_args sim_AC k_AC =
     \<lparr>al_num_modes = num_modes sim_AC, al_n_msh_el = n_msh_el sim_AC,
      al_mesh = mesh_tables sim_AC, al_nnodes = nnodes,
      al_nb_typ_el_AC = nb_typ_el_AC (structure_obj sim_AC),
      al_eta_tensor = eta_tensor (structure_obj sim_AC), al_k_AC = k_AC,
      al_Omega_AC = Omega_AC sim_AC, al_sol1 = sol1 sim_AC,
      al_AC_mode_power = AC_mode_power sim_AC\<rparr>"

definition is_linear_shape :: "('m, 't) simmo \<Rightarrow> bool" where
  "is_linear_shape sim \<longleftrightarrow>
     inc_shape (structure_obj sim) \<in> set (linear_element_shapes (structure_obj sim))"

definition not_sure_warning :: "('m, 't) simmo \<Rightarrow> string \<Rightarrow> ('m, 't) event list" where
  "not_sure_warning sim routine =
     (if inc_shape (structure_obj sim) \<in> set (curvilinear_element_shapes (structure_obj sim))
      then [] else [Warning_not_sure routine])"

definition alpha_kernel_step ::
  "('m, 't) kernel \<Rightarrow> ('m, 't) simmo \<Rightarrow> ('m, 't) simmo \<Rightarrow> real \<Rightarrow>
   ('m, 't) event list \<times> (nat \<Rightarrow> complex) outcome" where
  "alpha_kernel_step K sim_EM_pump sim_AC k_AC =
     (let args = alpha_call_args sim_AC k_AC in
      if is_linear_shape sim_EM_pump
      then ([Call_ac_alpha_int_v2 args], ac_alpha_int_v2 K args)
      else (not_sure_warning sim_EM_pump ''ac_alpha_int'' @ [Call_ac_alpha_int args Fortran_debug],
            ac_alpha_int K args Fortran_debug))"

definition alpha_and_Q ::
  "('m, 't) kernel \<Rightarrow> ('m, 't) simmo \<Rightarrow> ('m, 't) simmo \<Rightarrow> real \<Rightarrow> real option \<Rightarrow>
   ('m, 't) event list \<times> (py_error + real list \<times> real npval list)" where
  "alpha_and_Q K sim_EM_pump sim_AC k_AC fixed_Q =
     (case fixed_Q of
        None \<Rightarrow>
          (case alpha_kernel_step K sim_EM_pump sim_AC k_AC of
             (tr, KeyboardInterrupt) \<Rightarrow> (tr @ [Interrupted ''ac_alpha_int''], Inl UnboundLocalError)
           | (tr, Returned a) \<Rightarrow>
               (let alpha = map (\<lambda>k. Re (a k)) [0..<num_modes sim_AC] in
                (tr, Inr (alpha, map (\<lambda>al. np_scale 1 (np_scale 0.5 (np_divide k_AC al))) alpha))))
      | Some q \<Rightarrow>
          if q = 0 then ([], Inl ZeroDivisionError)
          else ([], Inr (replicate (num_modes sim_AC) (0.5 * (k_AC / q) * 1),
                         replicate (num_modes sim_AC) (Num (q * 1)))))"

text \<open>Lines 192-217: the photoelastic overlap; \<open>None\<close> is the unbound \<^verbatim>\<open>Q_PE\<close>.\<close>

definition pe_call_args ::
  "('m, 't) simmo \<Rightarrow> ('m, 't) simmo \<Rightarrow> ('m, 't) simmo \<Rightarrow> real \<Rightarrow> int \<Rightarrow> int \<Rightarrow> int \<Rightarrow>
   ndarray4 \<Rightarrow> ndarray4 \<Rightarrow> complex list \<Rightarrow> ('m, 't) pe_args" where
  "pe_call_args sim_EM_pump sim_EM_Stokes sim_AC k_AC ip iS iA tp ts eps =
     \<lparr>pe_num_modes_pump = num_modes sim_EM_pump, pe_num_modes_Stokes = num_modes sim_EM_Stokes,
      pe_num_modes_AC = num_modes sim_AC, pe_ival_pump = ip, pe_ival_Stokes = iS,
      pe_ival_AC = iA, pe_n_msh_el = n_msh_el sim_AC, pe_mesh = mesh_tables sim_AC,
      pe_nnodes = nnodes, pe_nb_typ_el_AC = nb_typ_el_AC (structure_obj sim_AC),
      pe_p_tensor = p_tensor (structure_obj sim_AC), pe_k_AC = k_AC,
      pe_pump_field = tp, pe_Stokes_field = ts, pe_AC_field = sol1 sim_AC,
      pe_eps_effs = eps, pe_debug = Fortran_debug\<rparr>"

definition pe_kernel_step ::
  "('m, 't) kernel \<Rightarrow> ('m, 't) simmo \<Rightarrow> ('m, 't) pe_args \<Rightarrow>
   ('m, 't) event list \<times> overlap outcome" where
  "pe_kernel_step K sim_EM_pump args =
     (if is_linear_shape sim_EM_pump
      then ([Call_photoelastic_int_v2 args], photoelastic_int_v2 K args)
      else (not_sure_warning sim_EM_pump ''photoelastic_int'' @ [Call_photoelastic_int args],
            photoelastic_int K args))"

definition photoelastic_step ::
  "('m, 't) kernel \<Rightarrow> ('m, 't) simmo \<Rightarrow> ('m, 't) pe_args \<Rightarrow>
   ('m, 't) event list \<times> overlap option" where
  "photoelastic_step K sim_EM_pump args =
     (case pe_kernel_step K sim_EM_pump args of
        (tr, KeyboardInterrupt) \<Rightarrow> (tr @ [Interrupted ''photoelastic_int''], None)
      | (tr, Returned q) \<Rightarrow> (tr, Some q))"

text \<open>Lines 221-238: the moving-boundary overlap; \<open>None\<close> is the unbound \<^verbatim>\<open>Q_MB\<close>.\<close>

definition typ_select_in :: int where "typ_select_in = 1"

definition select_out :: "complex list \<Rightarrow> int option \<Rightarrow> int" where
  "select_out relevant_eps_effs typ_select_out =
     (if length relevant_eps_effs = 2 then 2
      else (case typ_select_out of None \<Rightarrow> - 1 | Some v \<Rightarrow> v))"

definition mb_call_args ::
  "('m, 't) simmo \<Rightarrow> ('m, 't) simmo \<Rightarrow> ('m, 't) simmo \<Rightarrow> int \<Rightarrow> int \<Rightarrow> int \<Rightarrow>
   ndarray4 \<Rightarrow> ndarray4 \<Rightarrow> complex list \<Rightarrow> int option \<Rightarrow> 'm mb_args" where
  "mb_call_args sim_EM_pump sim_EM_Stokes sim_AC ip iS iA tp ts eps typ_select_out =
     \<lparr>mb_num_modes_pump = num_modes sim_EM_pump, mb_num_modes_Stokes = num_modes sim_EM_Stokes,
      mb_num_modes_AC = num_modes sim_AC, mb_ival_pump = ip, mb_ival_Stokes = iS,
      mb_ival_AC = iA, mb_n_msh_el = n_msh_el sim_AC, mb_mesh = mesh_tables sim_AC,
      mb_nnodes = nnodes, mb_nb_typ_el_AC = nb_typ_el_AC (structure_obj sim_AC),
      mb_typ_select_in = typ_select_in, mb_typ_select_out = select_out eps typ_select_out,
      mb_pump_field = tp, mb_Stokes_field = ts, mb_AC_field = sol1 sim_AC,
      mb_eps_effs = eps, mb_debug = Fortran_debug\<rparr>"

definition moving_boundary_step ::
  "('m, 't) kernel \<Rightarrow> 'm mb_args \<Rightarrow> ('m, 't) event list \<times> overlap option" where
  "moving_boundary_step K args =
     (case moving_boundary K args of
        KeyboardInterrupt \<Rightarrow> ([Call_moving_boundary args, Interrupted ''moving_boundary''], None)
      | Returned q \<Rightarrow> ([Call_moving_boundary args], Some q))"

text \<open>Lines 241-258: the gains and their normalisation.\<close>

definition gain_of :: "('m, 't) simmo \<Rightarrow> ('m, 't) simmo \<Rightarrow> overlap \<Rightarrow> overlap" where
  "gain_of sim_EM_pump sim_AC Q i j k =
     complex_of_real (2 * omega_EM sim_EM_pump) * Omega_AC sim_AC k
       * complex_of_real (Re (Q i j k * cnj (Q i j k)))"

definition normal_fact_of ::
  "('m, 't) simmo \<Rightarrow> ('m, 't) simmo \<Rightarrow> ('m, 't) simmo \<Rightarrow> real list \<Rightarrow>
   py_error + complex list list list" where
  "normal_fact_of sim_EM_pump sim_EM_Stokes sim_AC alpha =
     fill (\<lambda>i.
        case get1 (EM_mode_power sim_EM_Stokes) i of
          Inl e \<Rightarrow> Inl e
        | Inr P1 \<Rightarrow>
            fill (\<lambda>j.
               case get1 (EM_mode_power sim_EM_pump) j of
                 Inl e \<Rightarrow> Inl e
               | Inr P2 \<Rightarrow>
                   fill (\<lambda>k.
                      case get1 (AC_mode_power sim_AC) k of
                        Inl e \<Rightarrow> Inl e
                      | Inr P3 \<Rightarrow>
                          (case get1 alpha k of
                             Inl e \<Rightarrow> Inl e
                           | Inr al \<Rightarrow> Inr (P1 * P2 * P3 * complex_of_real al)))
                     [0..<num_modes sim_AC])
              [0..<num_modes sim_EM_pump])
       [0..<num_modes sim_EM_Stokes]"

definition normalise :: "overlap \<Rightarrow> complex list list list \<Rightarrow> real npval list list list" where
  "normalise g normal_fact =
     map (\<lambda>i. map (\<lambda>j. map (\<lambda>k. np_real (np_divide (g i j k) (normal_fact ! i ! j ! k)))
                          [0..<length (normal_fact ! i ! j)])
                [0..<length (normal_fact ! i)])
       [0..<length normal_fact]"

record gain_result =
  SBS_gain :: "real npval list list list"
  SBS_gain_PE :: "real npval list list list"
  SBS_gain_MB :: "real npval list list list"
  alpha_out :: "real list"
  Q_factors :: "real npval list"

definition assemble ::
  "('m, 't) simmo \<Rightarrow> ('m, 't) simmo \<Rightarrow> ('m, 't) simmo \<Rightarrow> real list \<Rightarrow> real npval list \<Rightarrow>
   overlap option \<Rightarrow> overlap option \<Rightarrow> py_error + gain_result" where
  "assemble sim_EM_pump sim_EM_Stokes sim_AC alpha Qf Q_PE Q_MB =
     (case Q_PE of
        None \<Rightarrow> Inl UnboundLocalError
      | Some qpe \<Rightarrow>
          (case Q_MB of
             None \<Rightarrow> Inl UnboundLocalError
           | Some qmb \<Rightarrow>
               (let Q = (\<lambda>i j k. qpe i j k + qmb i j k) in
                case normal_fact_of sim_EM_pump sim_EM_Stokes sim_AC alpha of
                  Inl e \<Rightarrow> Inl e
                | Inr normal_fact \<Rightarrow>
                    Inr \<lparr>SBS_gain = normalise (gain_of sim_EM_pump sim_AC Q) normal_fact,
                         SBS_gain_PE = normalise (gain_of sim_EM_pump sim_AC qpe) normal_fact,
                         SBS_gain_MB = normalise (gain_of sim_EM_pump sim_AC qmb) normal_fact,
                         alpha_out = alpha, Q_factors = Qf\<rparr>)))"

text \<open>The function: the trace of the run, and the exception raised or the tuple returned.\<close>

definition gain_and_qs ::
  "('m, 't) kernel \<Rightarrow> ('m, 't) simmo \<Rightarrow> ('m, 't) simmo \<Rightarrow> ('m, 't) simmo \<Rightarrow> real \<Rightarrow>
   py_ival \<Rightarrow> py_ival \<Rightarrow> py_ival \<Rightarrow> real option \<Rightarrow> int option \<Rightarrow>
   ('m, 't) event list \<times> (py_error + gain_result)" where
  "gain_and_qs K sim_EM_pump sim_EM_Stokes sim_AC k_AC EM_ival_pump EM_ival_Stokes AC_ival
     fixed_Q typ_select_out =
     (case fortran_ival EM_ival_pump of Inl e \<Rightarrow> ([], Inl e) | Inr ip \<Rightarrow>
     (case fortran_ival EM_ival_Stokes of Inl e \<Rightarrow> ([], Inl e) | Inr iS \<Rightarrow>
     (case fortran_ival AC_ival of Inl e \<Rightarrow> ([], Inl e) | Inr iA \<Rightarrow>
     (case trim_fields sim_EM_pump sim_EM_Stokes sim_AC of Inl e \<Rightarrow> ([], Inl e) | Inr (tp, ts) \<Rightarrow>
     (case relevant_eps_effs_of sim_EM_pump sim_AC of Inl e \<Rightarrow> ([], Inl e) | Inr eps \<Rightarrow>
     (case alpha_and_Q K sim_EM_pump sim_AC k_AC fixed_Q of
        (tr1, Inl e) \<Rightarrow> (tr1, Inl e)
      | (tr1, Inr (alpha, Qf)) \<Rightarrow>
     (case photoelastic_step K sim_EM_pump
             (pe_call_args sim_EM_pump sim_EM_Stokes sim_AC k_AC ip iS iA tp ts eps) of
        (tr2, Q_PE) \<Rightarrow>
     (case moving_boundary_step K
             (mb_call_args sim_EM_pump sim_EM_Stokes sim_AC ip iS iA tp ts eps typ_select_out) of
        (tr3, Q_MB) \<Rightarrow>
      (tr1 @ tr2 @ tr3,
       assemble sim_EM_pump sim_EM_Stokes sim_AC alpha Qf Q_PE Q_MB)))))))))"

subsection \<open>symmetries\<close>

text \<open>
  Lines 275-362 lay a grid of \<^verbatim>\<open>n_pts_x\<close> by \<^verbatim>\<open>n_pts_y\<close> points over the mesh and
  interpolate the field of every mode on it with matplotlib. The interpolation is outside
  the module: the grids \<^verbatim>\<open>m_Ex\<close> and \<^verbatim>\<open>m_Ey\<close> of mode \<open>ival\<close> are the parameter
  \<open>interp ival\<close>, given by their entries.

  The interpolator returns masked arrays: the entry of a grid point outside the mesh is
  masked and its data is \<^verbatim>\<open>nan\<close>; in the model such an entry is \<open>None\<close>. What numpy
  does with a masked entry is part of the model: \<^verbatim>\<open>m[~np.isnan(m)]\<close> selects the entries
  that are not masked, \<^verbatim>\<open>np.max\<close> and \<^verbatim>\<open>np.sum\<close> of a masked array leave the masked
  entries out, \<open>- 1\<close> times a masked element is masked, and a masked element assigned to
  an element of an ordinary array is stored as 0. An ordinary array is a masked grid
  with no entry masked.
\<close>

type_synonym masked_grid = "nat \<Rightarrow> nat \<Rightarrow> complex option"

type_synonym grid = "nat \<Rightarrow> nat \<Rightarrow> complex"

definition grid_points :: "nat \<Rightarrow> nat \<Rightarrow> (nat \<times> nat) list" where
  "grid_points nx ny = concat (map (\<lambda>ix. map (\<lambda>iy. (ix, iy)) [0..<ny]) [0..<nx])"

text \<open>The entries of a masked array that are not masked, in the order of the grid.\<close>

definition compressed :: "nat \<Rightarrow> nat \<Rightarrow> masked_grid \<Rightarrow> complex list" where
  "compressed nx ny g = List.map_filter (\<lambda>(ix, iy). g ix iy) (grid_points nx ny)"

fun np_max :: "real list \<Rightarrow> py_error + real" where
  "np_max [] = Inl ValueError"
| "np_max (x # xs) = Inr (fold max xs x)"

definition np_sum_abs :: "nat \<Rightarrow> nat \<Rightarrow> masked_grid \<Rightarrow> real" where
  "np_sum_abs nx ny g = sum_list (map cmod (compressed nx ny g))"

text \<open>
  Lines 364-367: a component of negligible magnitude is replaced by an ordinary array of
  zeros. The maximum is taken over the entries that are not \<^verbatim>\<open>nan\<close>; it raises when
  there is none.
\<close>

definition zero_negligible ::
  "nat \<Rightarrow> nat \<Rightarrow> real \<Rightarrow> masked_grid \<Rightarrow> py_error + masked_grid" where
  "zero_negligible nx ny negligible_threshold g =
     (case np_max (map cmod (compressed nx ny g)) of
        Inl e \<Rightarrow> Inl e
      | Inr m \<Rightarrow> Inr (if m < negligible_threshold then (\<lambda>ix iy. Some 0) else g))"

text \<open>
  Lines 370-391: the transformed grids are ordinary arrays, filled element by element
  from the masked ones.
\<close>

definition stored :: "complex option \<Rightarrow> complex" where
  "stored v = (case v of None \<Rightarrow> 0 | Some z \<Rightarrow> z)"

definition Ex_ymirror :: "nat \<Rightarrow> nat \<Rightarrow> masked_grid \<Rightarrow> grid" where
  "Ex_ymirror nx ny m_Ex ix iy = stored (m_Ex ix (ny - iy - 1))"

definition Ey_ymirror :: "nat \<Rightarrow> nat \<Rightarrow> masked_grid \<Rightarrow> grid" where
  "Ey_ymirror nx ny m_Ey ix iy = stored (map_option (\<lambda>z. - 1 * z) (m_Ey ix (ny - iy - 1)))"

definition Ex_xmirror :: "nat \<Rightarrow> nat \<Rightarrow> masked_grid \<Rightarrow> grid" where
  "Ex_xmirror nx ny m_Ex ix iy = stored (map_option (\<lambda>z. - 1 * z) (m_Ex (nx - ix - 1) iy))"

definition Ey_xmirror :: "nat \<Rightarrow> nat \<Rightarrow> masked_grid \<Rightarrow> grid" where
  "Ey_xmirror nx ny m_Ey ix iy = stored (m_Ey (nx - ix - 1) iy)"

definition E_rotated :: "nat \<Rightarrow> nat \<Rightarrow> masked_grid \<Rightarrow> grid" where
  "E_rotated nx ny m_E ix iy =
     stored (map_option (\<lambda>z. - 1 * z) (m_E (nx - ix - 1) (ny - iy - 1)))"

text \<open>
  Lines 393-401: the three scores. The difference of a masked array and an ordinary one
  is masked where the first is.
\<close>

definition grid_diff :: "masked_grid \<Rightarrow> grid \<Rightarrow> masked_grid" where
  "grid_diff a b ix iy = map_option (\<lambda>z. z - b ix iy) (a ix iy)"

definition sigma_y :: "nat \<Rightarrow> nat \<Rightarrow> masked_grid \<Rightarrow> masked_grid \<Rightarrow> real" where
  "sigma_y nx ny m_Ex m_Ey =
     (np_sum_abs nx ny (grid_diff m_Ex (Ex_ymirror nx ny m_Ex))
      + np_sum_abs nx ny (grid_diff m_Ey (Ey_ymirror nx ny m_Ey))) / real (nx * ny)"

definition sigma_x :: "nat \<Rightarrow> nat \<Rightarrow> masked_grid \<Rightarrow> masked_grid \<Rightarrow> real" where
  "sigma_x nx ny m_Ex m_Ey =
     (np_sum_abs nx ny (grid_diff m_Ex (Ex_xmirror nx ny m_Ex))
      + np_sum_abs nx ny (grid_diff m_Ey (Ey_xmirror nx ny m_Ey))) / real (nx * ny)"

definition C_2 :: "nat \<Rightarrow> nat \<Rightarrow> masked_grid \<Rightarrow> masked_grid \<Rightarrow> real" where
  "C_2 nx ny m_Ex m_Ey =
     (np_sum_abs nx ny (grid_diff m_Ex (E_rotated nx ny m_Ex))
      + np_sum_abs nx ny (grid_diff m_Ey (E_rotated nx ny m_Ey))) / real (nx * ny)"

text \<open>Lines 403-423: the labels of one mode.\<close>

definition sym_print :: "real \<Rightarrow> real \<Rightarrow> int" where
  "sym_print score limit = (if \<bar>score\<bar> > limit then - 1 else 1)"

definition symmetries_mode ::
  "nat \<Rightarrow> nat \<Rightarrow> real \<Rightarrow> masked_grid \<times> masked_grid \<Rightarrow> py_error + int list" where
  "symmetries_mode nx ny negligible_threshold m =
     (case zero_negligible nx ny negligible_threshold (fst m) of
        Inl e \<Rightarrow> Inl e
      | Inr m_Ex \<Rightarrow>
          (case zero_negligible nx ny negligible_threshold (snd m) of
             Inl e \<Rightarrow> Inl e
           | Inr m_Ey \<Rightarrow>
               Inr [sym_print (C_2 nx ny m_Ex m_Ey) 0.2,
                    sym_print (sigma_y nx ny m_Ex m_Ey) 0.1,
                    sym_print (sigma_x nx ny m_Ex m_Ey) 0.1]))"

text \<open>The loop over the modes, \<^verbatim>\<open>range(len(sim_wguide.Eig_values))\<close>.\<close>

definition symmetries ::
  "(nat \<Rightarrow> masked_grid \<times> masked_grid) \<Rightarrow> nat \<Rightarrow> nat \<Rightarrow> nat \<Rightarrow> real \<Rightarrow>
   py_error + int list list" where
  "symmetries interp n_eig_values n_pts_x n_pts_y negligible_threshold =
     fill (\<lambda>ival. symmetries_mode n_pts_x n_pts_y negligible_threshold (interp ival))
       [0..<n_eig_values]"

subsection \<open>Notions used in the statements\<close>

text \<open>
  What a re-indexed field has to hold at an index, the indices of the rows already
  copied, and the state of the copy loops.
\<close>

definition want :: "ndarray4 \<Rightarrow> (nat \<rightharpoonup> int) \<Rightarrow> nat \<times> nat \<times> nat \<times> nat \<Rightarrow> complex" where
  "want src tbl = (\<lambda>(x, n, ival, el). elems4 src (x, n, ival, nat (the (tbl el))))"

definition cells :: "nat \<Rightarrow> (nat \<times> nat \<times> nat) set \<Rightarrow> (nat \<times> nat \<times> nat \<times> nat) set" where
  "cells nm D = {(x, n, ival, el). (x, n, el) \<in> D \<and> ival < nm}"

definition trimmed_on ::
  "ndarray4 \<Rightarrow> (nat \<rightharpoonup> int) \<Rightarrow> nat \<times> nat \<times> nat \<times> nat \<Rightarrow> ndarray4 \<Rightarrow>
   (nat \<times> nat \<times> nat \<times> nat) set \<Rightarrow> bool" where
  "trimmed_on src tbl sh t D \<longleftrightarrow> shape4 t = sh \<and> (\<forall>idx\<in>D. elems4 t idx = want src tbl idx)"

definition trimmed_pair ::
  "('m, 't) simmo \<Rightarrow> ('m, 't) simmo \<Rightarrow> ('m, 't) simmo \<Rightarrow> ndarray4 \<times> ndarray4 \<Rightarrow>
   (nat \<times> nat \<times> nat) set \<Rightarrow> bool" where
  "trimmed_pair P S A st D \<longleftrightarrow>
     trimmed_on (sol1 P) (el_convert_tbl A) (3, 6, num_modes P, n_msh_el A) (fst st)
       (cells (num_modes P) D) \<and>
     trimmed_on (sol1 S) (el_convert_tbl A) (3, 6, num_modes S, n_msh_el A) (snd st)
       (cells (num_modes S) D)"

text \<open>
  The encoding of a mode selector that the Fortran routines are documented to take:
  \<open>- 1\<close> for \<^verbatim>\<open>'All'\<close>, the index plus one for a Python index.
\<close>

fun sel_encoding :: "py_ival \<Rightarrow> int \<Rightarrow> bool" where
  "sel_encoding (PyStr s) i \<longleftrightarrow> s = ''All'' \<and> i = - 1"
| "sel_encoding (PyInt n) i \<longleftrightarrow> i = n + 1"

text \<open>A selector as documented: \<^verbatim>\<open>'All'\<close>, or an index counted from zero.\<close>

fun documented_sel :: "py_ival \<Rightarrow> bool" where
  "documented_sel (PyStr s) \<longleftrightarrow> s = ''All''"
| "documented_sel (PyInt n) \<longleftrightarrow> 0 \<le> n"

text \<open>The call recorded by an event was interrupted.\<close>

fun interrupted_call :: "('m, 't) kernel \<Rightarrow> ('m, 't) event \<Rightarrow> bool" where
  "interrupted_call K (Call_ac_alpha_int_v2 a) \<longleftrightarrow> ac_alpha_int_v2 K a = KeyboardInterrupt"
| "interrupted_call K (Call_ac_alpha_int a d) \<longleftrightarrow> ac_alpha_int K a d = KeyboardInterrupt"
| "interrupted_call K (Call_photoelastic_int_v2 a) \<longleftrightarrow> photoelastic_int_v2 K a = KeyboardInterrupt"
| "interrupted_call K (Call_photoelastic_int a) \<longleftrightarrow> photoelastic_int K a = KeyboardInterrupt"
| "interrupted_call K (Call_moving_boundary b) \<longleftrightarrow> moving_boundary K b = KeyboardInterrupt"
| "interrupted_call K (Warning_not_sure s) \<longleftrightarrow> False"
| "interrupted_call K (Interrupted s) \<longleftrightarrow> False"

fun is_alpha_call :: "('m, 't) event \<Rightarrow> bool" where
  "is_alpha_call (Call_ac_alpha_int_v2 a) \<longleftrightarrow> True"
| "is_alpha_call (Call_ac_alpha_int a d) \<longleftrightarrow> True"
| "is_alpha_call ev \<longleftrightarrow> False"

fun is_overlap_call :: "('m, 't) event \<Rightarrow> bool" where
  "is_overlap_call (Call_photoelastic_int_v2 a) \<longleftrightarrow> True"
| "is_overlap_call (Call_photoelastic_int a) \<longleftrightarrow> True"
| "is_overlap_call (Call_moving_boundary b) \<longleftrightarrow> True"
| "is_overlap_call ev \<longleftrightarrow> False"

text \<open>
  An entry of a gain tensor in the words of the specification: the real part of
  \<open>2 * omega_EM * Omega_AC * Re (Q * conj Q)\<close> divided by the normalisation factor,
  which is the product of the three mode powers and of \<open>alpha\<close>.
\<close>

definition spec_normal_fact :: "complex \<Rightarrow> complex \<Rightarrow> complex \<Rightarrow> real \<Rightarrow> complex" where
  "spec_normal_fact P_Stokes P_pump P_AC al = P_Stokes * P_pump * P_AC * complex_of_real al"

definition spec_gain_entry :: "real \<Rightarrow> complex \<Rightarrow> complex \<Rightarrow> complex \<Rightarrow> real npval" where
  "spec_gain_entry omega Omega Q normal_fact =
     np_real (np_divide (2 * complex_of_real omega * Omega * complex_of_real (Re (Q * cnj Q)))
                normal_fact)"

text \<open>
  The statement of the scores. A score has one term for every grid point inside the mesh
  and for each of the two components, and is divided by the number of all grid points.
  The term of a point whose reflected point is inside the mesh too is the absolute
  difference of the component at the point and \<open>sign\<close> times the component at the
  reflected point. The term of a point whose reflected point is outside the mesh is the
  magnitude of the component at the point.
\<close>

definition pair_term :: "complex option \<Rightarrow> complex option \<Rightarrow> complex \<Rightarrow> real" where
  "pair_term v w sign =
     (case v of None \<Rightarrow> 0
      | Some z \<Rightarrow> (case w of None \<Rightarrow> cmod z | Some z' \<Rightarrow> cmod (z - sign * z')))"

definition spec_sigma_y :: "nat \<Rightarrow> nat \<Rightarrow> masked_grid \<Rightarrow> masked_grid \<Rightarrow> real" where
  "spec_sigma_y Nx Ny Fx Fy =
     (\<Sum>ix<Nx. \<Sum>iy<Ny. pair_term (Fx ix iy) (Fx ix (Ny - 1 - iy)) 1
                        + pair_term (Fy ix iy) (Fy ix (Ny - 1 - iy)) (- 1)) / real (Nx * Ny)"

definition spec_sigma_x :: "nat \<Rightarrow> nat \<Rightarrow> masked_grid \<Rightarrow> masked_grid \<Rightarrow> real" where
  "spec_sigma_x Nx Ny Fx Fy =
     (\<Sum>ix<Nx. \<Sum>iy<Ny. pair_term (Fx ix iy) (Fx (Nx - 1 - ix) iy) (- 1)
                        + pair_term (Fy ix iy) (Fy (Nx - 1 - ix) iy) 1) / real (Nx * Ny)"

definition spec_C_2 :: "nat \<Rightarrow> nat \<Rightarrow> masked_grid \<Rightarrow> masked_grid \<Rightarrow> real" where
  "spec_C_2 Nx Ny Fx Fy =
     (\<Sum>ix<Nx. \<Sum>iy<Ny. pair_term (Fx ix iy) (Fx (Nx - 1 - ix) (Ny - 1 - iy)) (- 1)
                        + pair_term (Fy ix iy) (Fy (Nx - 1 - ix) (Ny - 1 - iy)) (- 1))
       / real (Nx * Ny)"

text \<open>The label in the words of the specification: \<open>1\<close> below the threshold, else \<open>- 1\<close>.\<close>

definition spec_label :: "real \<Rightarrow> real \<Rightarrow> int" where
  "spec_label score threshold = (if score < threshold then 1 else - 1)"

text \<open>
  The component that the scores are taken of (section 4.4, step 6 of the specification):
  the interpolated one, or zeros when the magnitude of the interpolated one is below the
  negligible threshold at every grid point inside the mesh.
\<close>

definition negligible_at :: "real \<Rightarrow> complex option \<Rightarrow> bool" where
  "negligible_at negligible_threshold v =
     (case v of None \<Rightarrow> True | Some z \<Rightarrow> cmod z < negligible_threshold)"

definition scored_component :: "nat \<Rightarrow> nat \<Rightarrow> real \<Rightarrow> masked_grid \<Rightarrow> masked_grid" where
  "scored_component Nx Ny negligible_threshold m =
     (if \<forall>ix\<in>{..<Nx}. \<forall>iy\<in>{..<Ny}. negligible_at negligible_threshold (m ix iy)
      then (\<lambda>ix iy. Some 0) else m)"



text \<open>
  Inputs with which nothing in \<^verbatim>\<open>gain_and_qs\<close> raises: documented selectors, fields of
  the shape \<open>[3, 6, num_modes, elements]\<close>, an element table into the EM elements, a
  refractive index for every material type, a power for every mode, a \<^verbatim>\<open>fixed_Q\<close> that
  is not zero, and Fortran routines that are not interrupted. The values of the powers and
  of \<^verbatim>\<open>alpha\<close> are not restricted.
\<close>

definition run_inputs_ok ::
  "('m, 't) kernel \<Rightarrow> ('m, 't) simmo \<Rightarrow> ('m, 't) simmo \<Rightarrow> ('m, 't) simmo \<Rightarrow>
   py_ival \<Rightarrow> py_ival \<Rightarrow> py_ival \<Rightarrow> real option \<Rightarrow> bool" where
  "run_inputs_ok K P S A vp vs va fq \<longleftrightarrow>
     documented_sel vp \<and> documented_sel vs \<and> documented_sel va \<and>
     (\<exists>neP neS.
        shape4 (sol1 P) = (3, 6, num_modes P, neP) \<and>
        shape4 (sol1 S) = (3, 6, num_modes S, neS) \<and>
        (\<forall>el<n_msh_el A.
           \<exists>v. el_convert_tbl A el = Some v \<and> 0 \<le> v \<and> v < int neP \<and> v < int neS)) \<and>
     nb_typ_el (structure_obj P) \<le> length (n_list P) \<and>
     fq \<noteq> Some 0 \<and>
     num_modes S \<le> length (EM_mode_power S) \<and>
     num_modes P \<le> length (EM_mode_power P) \<and>
     num_modes A \<le> length (AC_mode_power A) \<and>
     (\<forall>a. ac_alpha_int_v2 K a \<noteq> KeyboardInterrupt) \<and>
     (\<forall>a d. ac_alpha_int K a d \<noteq> KeyboardInterrupt) \<and>
     (\<forall>a. photoelastic_int_v2 K a \<noteq> KeyboardInterrupt) \<and>
     (\<forall>a. photoelastic_int K a \<noteq> KeyboardInterrupt) \<and>
     (\<forall>b. moving_boundary K b \<noteq> KeyboardInterrupt)"

subsection \<open>A small waveguide\<close>

text \<open>
  Two EM elements, one acoustic element that is EM element 1, one optical mode, three
  acoustic modes, and Fortran routines that return constants.
\<close>

definition ex_struct :: "unit struct" where
  "ex_struct = \<lparr>nb_typ_el = 2, nb_typ_el_AC = 1, inc_shape = ''rectangular'',
     linear_element_shapes = [''rectangular'', ''slot''],
     curvilinear_element_shapes = [''circular''], eta_tensor = (), p_tensor = ()\<rparr>"

definition ex_EM :: "(unit, unit) simmo" where
  "ex_EM = \<lparr>structure_obj = ex_struct, num_modes = 1, n_msh_el = 2, mesh_tables = (),
     sol1 = \<lparr>shape4 = (3, 6, 1, 2), elems4 = (\<lambda>(x, n, ival, e). of_nat (x + 10 * e))\<rparr>,
     el_convert_tbl = Map.empty, typ_el_AC = [], n_list = [1, 2],
     EM_mode_power = [2], AC_mode_power = [], omega_EM = 3, Omega_AC = (\<lambda>k. 0)\<rparr>"

definition ex_AC :: "(unit, unit) simmo" where
  "ex_AC = \<lparr>structure_obj = ex_struct, num_modes = 3, n_msh_el = 1, mesh_tables = (),
     sol1 = zeros4 (3, 6, 3, 1),
     el_convert_tbl = [0 \<mapsto> 1], typ_el_AC = [2], n_list = [],
     EM_mode_power = [], AC_mode_power = [5, 5, 5], omega_EM = 0, Omega_AC = (\<lambda>k. 7)\<rparr>"

definition ex_kernel :: "(unit, unit) kernel" where
  "ex_kernel = \<lparr>ac_alpha_int_v2 = (\<lambda>a. Returned (\<lambda>k. 2)),
     ac_alpha_int = (\<lambda>a d. Returned (\<lambda>k. 2)),
     photoelastic_int_v2 = (\<lambda>a. Returned (\<lambda>i j k. 1)),
     photoelastic_int = (\<lambda>a. Returned (\<lambda>i j k. 1)),
     moving_boundary = (\<lambda>b. Returned (\<lambda>i j k. if k = 0 then \<i> else 1))\<rparr>"

text \<open>The same with an interrupt during the photoelastic routine.\<close>

definition ex_kernel_interrupted :: "(unit, unit) kernel" where
  "ex_kernel_interrupted = ex_kernel\<lparr>photoelastic_int_v2 := (\<lambda>a. KeyboardInterrupt)\<rparr>"

text \<open>The same optical modes with a Stokes mode of power zero.\<close>

definition ex_EM_zero :: "(unit, unit) simmo" where
  "ex_EM_zero = ex_EM\<lparr>EM_mode_power := [0]\<rparr>"

text \<open>
  A mode on a grid of one by four points of which the two end points are outside the
  mesh: \<^verbatim>\<open>m_Ex\<close> is 0.1 at the two points inside, \<^verbatim>\<open>m_Ey\<close> is 1 at \<open>(0, 1)\<close> and
  \<open>- 1\<close> at \<open>(0, 2)\<close>. Every reflection takes a point inside the mesh to a point inside.
\<close>

definition ex_Ex :: masked_grid where
  "ex_Ex ix iy = (if iy = 1 \<or> iy = 2 then Some (1 / 10) else None)"

definition ex_Ey :: masked_grid where
  "ex_Ey ix iy = (if iy = 1 then Some 1 else if iy = 2 then Some (- 1) else None)"

definition ex_interp :: "nat \<Rightarrow> masked_grid \<times> masked_grid" where
  "ex_interp ival = (ex_Ex, ex_Ey)"

text \<open>
  A mode on a grid of two by two points over a mesh that is a right triangle, so that the
  corner \<open>(1, 1)\<close> is outside the mesh: \<^verbatim>\<open>m_Ex\<close> is 1 at \<open>(0, 0)\<close> and \<open>(0, 1)\<close> and 0
  at \<open>(1, 0)\<close>, \<^verbatim>\<open>m_Ey\<close> is 0.5 at \<open>(0, 0)\<close>, \<open>- 0.5\<close> at \<open>(0, 1)\<close> and 0 at \<open>(1, 0)\<close>.
\<close>

definition ex_Ex2 :: masked_grid where
  "ex_Ex2 ix iy = (if ix = 0 then Some 1 else if iy = 0 then Some 0 else None)"

definition ex_Ey2 :: masked_grid where
  "ex_Ey2 ix iy =
     (if ix = 0 then (if iy = 0 then Some (1 / 2) else Some (- (1 / 2)))
      else if iy = 0 then Some 0 else None)"

definition ex_interp2 :: "nat \<Rightarrow> masked_grid \<times> masked_grid" where
  "ex_interp2 ival = (ex_Ex2, ex_Ey2)"

text \<open>
  A uniform field on the same grid: \<^verbatim>\<open>m_Ex\<close> is 1 and \<^verbatim>\<open>m_Ey\<close> is 0 at the three
  points inside the mesh.
\<close>

definition ex_Ex_out :: masked_grid where
  "ex_Ex_out ix iy = (if ix = 1 \<and> iy = 1 then None else Some 1)"

definition ex_Ey_out :: masked_grid where
  "ex_Ey_out ix iy = (if ix = 1 \<and> iy = 1 then None else Some 0)"


section \<open>Properties\<close>

subsection \<open>Loops\<close>

lemma for_loop_total_gen:
  assumes "I pre s"
    and "\<And>ys x t. I ys t \<Longrightarrow> x \<in> set xs \<Longrightarrow> \<exists>t'. body x t = Inr t' \<and> I (ys @ [x]) t'"
  shows "\<exists>s'. for_loop body xs s = Inr s' \<and> I (pre @ xs) s'"
  using assms
proof (induction xs arbitrary: pre s)
  case Nil
  then show ?case by simp
next
  case (Cons x xs)
  from Cons.prems obtain t' where t': "body x s = Inr t'" "I (pre @ [x]) t'"
    by (meson list.set_intros(1))
  have "\<exists>s'. for_loop body xs t' = Inr s' \<and> I ((pre @ [x]) @ xs) s'"
    by (rule Cons.IH[OF t'(2)]) (use Cons.prems(2) in auto)
  with t' show ?case by simp
qed

lemma for_loop_total:
  assumes "I [] s"
    and "\<And>ys x t. I ys t \<Longrightarrow> x \<in> set xs \<Longrightarrow> \<exists>t'. body x t = Inr t' \<and> I (ys @ [x]) t'"
  shows "\<exists>s'. for_loop body xs s = Inr s' \<and> I xs s'"
  using for_loop_total_gen[of I "[]" s xs body] assms by simp

lemma fill_Inr:
  assumes "fill f xs = Inr ys"
  shows "length ys = length xs \<and> (\<forall>i<length xs. f (xs ! i) = Inr (ys ! i))"
  using assms
proof (induction xs arbitrary: ys)
  case Nil
  then show ?case by simp
next
  case (Cons x xs)
  from Cons.prems obtain y zs where y: "f x = Inr y" and zs: "fill f xs = Inr zs" and ys: "ys = y # zs"
    by (auto split: sum.splits)
  from Cons.IH[OF zs] have "length zs = length xs" and "\<forall>i<length xs. f (xs ! i) = Inr (zs ! i)"
    by simp_all
  then show ?case using y ys by (auto simp: nth_Cons split: nat.splits)
qed

lemma fill_upt:
  assumes "fill f [0..<n] = Inr ys"
  shows "length ys = n" and "i < n \<Longrightarrow> f i = Inr (ys ! i)"
  using fill_Inr[OF assms] by auto

lemma fill_total:
  assumes "\<And>x. x \<in> set xs \<Longrightarrow> \<exists>y. f x = Inr y"
  shows "\<exists>ys. fill f xs = Inr ys"
  using assms
proof (induction xs)
  case Nil
  then show ?case by simp
next
  case (Cons x xs)
  then obtain y ys where "f x = Inr y" "fill f xs = Inr ys" by (meson list.set_intros)
  then show ?case by simp
qed

subsection \<open>The re-indexed fields\<close>

lemma copy_modes_ok:
  assumes src: "shape4 src = (3, 6, nm, ne)"
    and tbl: "tbl el = Some new_el" "0 \<le> new_el" "new_el < int ne"
    and idx: "x < 3" "n < 6" "el < nel"
    and t: "trimmed_on src tbl (3, 6, nm, nel) t D"
  shows "\<exists>t'. copy_modes src x n el new_el nm t = Inr t' \<and>
              trimmed_on src tbl (3, 6, nm, nel) t' (D \<union> {(x, n, ival, el) |ival. ival < nm})"
proof -
  let ?I = "\<lambda>ys t. trimmed_on src tbl (3, 6, nm, nel) t (D \<union> {(x, n, ival, el) |ival. ival \<in> set ys})"
  let ?body = "\<lambda>ival t. case get4 src x n ival new_el of Inl e \<Rightarrow> Inl e | Inr v \<Rightarrow> set4 t x n ival el v"
  have "\<exists>t'. for_loop ?body [0..<nm] t = Inr t' \<and> ?I [0..<nm] t'"
  proof (rule for_loop_total)
    show "?I [] t" using t by simp
  next
    fix ys ival u
    assume I: "?I ys u" and "ival \<in> set [0..<nm]"
    then have ival: "ival < nm" by simp
    have g: "get4 src x n ival new_el = Inr (want src tbl (x, n, ival, el))"
      using src tbl idx ival by (simp add: get4_def np_index_def want_def)
    have sh: "shape4 u = (3, 6, nm, nel)" using I by (simp add: trimmed_on_def)
    have s: "set4 u x n ival el (want src tbl (x, n, ival, el)) =
        Inr (u\<lparr>elems4 := (elems4 u)((x, n, ival, el) := want src tbl (x, n, ival, el))\<rparr>)"
      using sh idx ival by (simp add: set4_def)
    have "?I (ys @ [ival]) (u\<lparr>elems4 := (elems4 u)((x, n, ival, el) := want src tbl (x, n, ival, el))\<rparr>)"
      using I unfolding trimmed_on_def by auto
    with g s show "\<exists>t'. ?body ival u = Inr t' \<and> ?I (ys @ [ival]) t'" by simp
  qed
  then show ?thesis unfolding copy_modes_def by simp
qed


lemma cells_insert:
  "cells nm (insert (x, n, el) D) = cells nm D \<union> {(x, n, ival, el) |ival. ival < nm}"
  by (auto simp: cells_def)

lemma trim_comp_ok:
  assumes P: "shape4 (sol1 P) = (3, 6, num_modes P, neP)"
    and S: "shape4 (sol1 S) = (3, 6, num_modes S, neS)"
    and tbl: "el_convert_tbl A el = Some new_el" "0 \<le> new_el" "new_el < int neP" "new_el < int neS"
    and idx: "x < 3" "n < 6" "el < n_msh_el A"
    and st: "trimmed_pair P S A st D"
  shows "\<exists>st'. trim_comp P S el new_el n x st = Inr st' \<and> trimmed_pair P S A st' (insert (x, n, el) D)"
proof -
  from st have p: "trimmed_on (sol1 P) (el_convert_tbl A) (3, 6, num_modes P, n_msh_el A) (fst st)
       (cells (num_modes P) D)"
    and s: "trimmed_on (sol1 S) (el_convert_tbl A) (3, 6, num_modes S, n_msh_el A) (snd st)
       (cells (num_modes S) D)"
    by (simp_all add: trimmed_pair_def)
  from copy_modes_ok[OF P tbl(1,2,3) idx p] obtain tp where
    tp: "copy_modes (sol1 P) x n el new_el (num_modes P) (fst st) = Inr tp"
      "trimmed_on (sol1 P) (el_convert_tbl A) (3, 6, num_modes P, n_msh_el A) tp
         (cells (num_modes P) (insert (x, n, el) D))"
    by (auto simp: cells_insert)
  from copy_modes_ok[OF S tbl(1,2,4) idx s] obtain ts where
    ts: "copy_modes (sol1 S) x n el new_el (num_modes S) (snd st) = Inr ts"
      "trimmed_on (sol1 S) (el_convert_tbl A) (3, 6, num_modes S, n_msh_el A) ts
         (cells (num_modes S) (insert (x, n, el) D))"
    by (auto simp: cells_insert)
  show ?thesis
    using tp ts by (simp add: trim_comp_def trimmed_pair_def)
qed

lemma trim_el_ok:
  assumes P: "shape4 (sol1 P) = (3, 6, num_modes P, neP)"
    and S: "shape4 (sol1 S) = (3, 6, num_modes S, neS)"
    and tbl: "el_convert_tbl A el = Some new_el" "0 \<le> new_el" "new_el < int neP" "new_el < int neS"
    and el: "el < n_msh_el A"
    and st: "trimmed_pair P S A st D"
  shows "\<exists>st'. trim_el P S A el st = Inr st' \<and>
           trimmed_pair P S A st' (D \<union> {(x, n, el) |x n. x < 3 \<and> n < 6})"
proof -
  let ?J = "\<lambda>ns st. trimmed_pair P S A st (D \<union> {(x, n, el) |x n. x < 3 \<and> n \<in> set ns})"
  have "\<exists>st'. for_loop (\<lambda>n. for_loop (trim_comp P S el new_el n) [0..<ncomps]) [0..<nnodes] st = Inr st'
          \<and> ?J [0..<nnodes] st'"
  proof (rule for_loop_total)
    show "?J [] st" using st by simp
  next
    fix ns n u
    assume J: "?J ns u" and "n \<in> set [0..<nnodes]"
    then have n: "n < 6" by (simp add: nnodes_def)
    let ?I = "\<lambda>xs st. trimmed_pair P S A st
        ((D \<union> {(x, n, el) |x n. x < 3 \<and> n \<in> set ns}) \<union> {(x, n, el) |x. x \<in> set xs})"
    have "\<exists>st'. for_loop (trim_comp P S el new_el n) [0..<ncomps] u = Inr st' \<and> ?I [0..<ncomps] st'"
    proof (rule for_loop_total)
      show "?I [] u" using J by simp
    next
      fix xs x v
      assume I: "?I xs v" and "x \<in> set [0..<ncomps]"
      then have x: "x < 3" by (simp add: ncomps_def)
      from trim_comp_ok[OF P S tbl x n el I] obtain v' where
        v': "trim_comp P S el new_el n x v = Inr v'"
          "trimmed_pair P S A v'
            (insert (x, n, el) ((D \<union> {(x, n, el) |x n. x < 3 \<and> n \<in> set ns}) \<union> {(x, n, el) |x. x \<in> set xs}))"
        by blast
      have eq: "insert (x, n, el) ((D \<union> {(x, n, el) |x n. x < 3 \<and> n \<in> set ns}) \<union> {(x, n, el) |x. x \<in> set xs})
          = (D \<union> {(x, n, el) |x n. x < 3 \<and> n \<in> set ns}) \<union> {(x', n, el) |x'. x' \<in> set (xs @ [x])}"
        by auto
      from v'(1) v'(2)[unfolded eq]
      show "\<exists>t'. trim_comp P S el new_el n x v = Inr t' \<and> ?I (xs @ [x]) t'" by blast
    qed
    then obtain u' where u': "for_loop (trim_comp P S el new_el n) [0..<ncomps] u = Inr u'"
      "?I [0..<ncomps] u'" by blast
    have eq: "(D \<union> {(x, n, el) |x n. x < 3 \<and> n \<in> set ns}) \<union> {(x, n, el) |x. x \<in> set [0..<ncomps]}
        = D \<union> {(x, n', el) |x n'. (x::nat) < 3 \<and> n' \<in> set (ns @ [n])}"
      by (auto simp: ncomps_def)
    from u'(1) u'(2)[unfolded eq]
    show "\<exists>t'. for_loop (trim_comp P S el new_el n) [0..<ncomps] u = Inr t' \<and> ?J (ns @ [n]) t'"
      by blast
  qed
  then obtain st' where st': "for_loop (\<lambda>n. for_loop (trim_comp P S el new_el n) [0..<ncomps]) [0..<nnodes] st = Inr st'"
     "?J [0..<nnodes] st'" by blast
  have eq: "{(x, n, el) |x n. (x::nat) < 3 \<and> n \<in> set [0..<nnodes]} = {(x, n, el) |x n. x < 3 \<and> n < 6}"
    by (auto simp: nnodes_def)
  from st'(1) st'(2)[unfolded eq]
  have "\<exists>st'. for_loop (\<lambda>n. for_loop (trim_comp P S el new_el n) [0..<ncomps]) [0..<nnodes] st = Inr st'
          \<and> trimmed_pair P S A st' (D \<union> {(x, n, el) |x n. x < 3 \<and> n < 6})"
    by blast
  then show ?thesis using tbl(1) by (simp add: trim_el_def)
qed

lemma trim_fields_ok:
  assumes P: "shape4 (sol1 P) = (3, 6, num_modes P, neP)"
    and S: "shape4 (sol1 S) = (3, 6, num_modes S, neS)"
    and tbl: "\<And>el. el < n_msh_el A \<Longrightarrow>
        \<exists>v. el_convert_tbl A el = Some v \<and> 0 \<le> v \<and> v < int neP \<and> v < int neS"
  shows "\<exists>st. trim_fields P S A = Inr st \<and>
           trimmed_pair P S A st {(x, n, el) |x n el. x < 3 \<and> n < 6 \<and> el < n_msh_el A}"
proof -
  let ?I = "\<lambda>els st. trimmed_pair P S A st {(x, n, el) |x n el. x < 3 \<and> n < 6 \<and> el \<in> set els}"
  let ?z = "(zeros4 (ncomps, nnodes, num_modes P, n_msh_el A),
        zeros4 (ncomps, nnodes, num_modes S, n_msh_el A))"
  have "\<exists>st. for_loop (trim_el P S A) [0..<n_msh_el A] ?z = Inr st \<and> ?I [0..<n_msh_el A] st"
  proof (rule for_loop_total)
    show "?I [] ?z"
      by (simp add: trimmed_pair_def trimmed_on_def zeros4_def ncomps_def nnodes_def cells_def)
  next
    fix els el u
    assume I: "?I els u" and "el \<in> set [0..<n_msh_el A]"
    then have el: "el < n_msh_el A" by simp
    from tbl[OF el] obtain v where v: "el_convert_tbl A el = Some v" "0 \<le> v" "v < int neP" "v < int neS"
      by blast
    from trim_el_ok[OF P S v el I] obtain u' where u': "trim_el P S A el u = Inr u'"
      "trimmed_pair P S A u'
         ({(x, n, el) |x n el. x < 3 \<and> n < 6 \<and> el \<in> set els} \<union> {(x, n, el) |x n. x < 3 \<and> n < 6})"
      by blast
    have eq: "{(x, n, el) |x n el. x < 3 \<and> n < 6 \<and> el \<in> set els} \<union> {(x, n, el) |x n. x < 3 \<and> n < 6}
        = {(x, n, el') |x n el'. (x::nat) < 3 \<and> (n::nat) < 6 \<and> el' \<in> set (els @ [el])}"
      by auto
    from u'(1) u'(2)[unfolded eq]
    show "\<exists>t'. trim_el P S A el u = Inr t' \<and> ?I (els @ [el]) t'" by blast
  qed
  then obtain st where st: "for_loop (trim_el P S A) [0..<n_msh_el A] ?z = Inr st"
    "?I [0..<n_msh_el A] st" by blast
  have eq: "{(x, n, el) |x n el. (x::nat) < 3 \<and> (n::nat) < 6 \<and> el \<in> set [0..<n_msh_el A]}
      = {(x, n, el) |x n el. x < 3 \<and> n < 6 \<and> el < n_msh_el A}" by auto
  from st(1) st(2)[unfolded eq]
  have "\<exists>st. for_loop (trim_el P S A) [0..<n_msh_el A] ?z = Inr st \<and>
      trimmed_pair P S A st {(x, n, el) |x n el. x < 3 \<and> n < 6 \<and> el < n_msh_el A}"
    by blast
  then show ?thesis by (simp add: trim_fields_def)
qed

text \<open>
  C3. For an element table that maps every acoustic element to an element of the EM
  fields, the pump and the Stokes field are re-indexed without an exception; the two
  arrays have the shape \<open>[3, 6, num_modes, n_msh_el_AC]\<close>, their entries are complex
  numbers, and for every component, node, mode and acoustic element the entry is the
  entry of the EM field at the element the table gives.
\<close>

theorem trimmed_fields_reindexed:
  assumes P: "shape4 (sol1 sim_EM_pump) = (3, 6, num_modes sim_EM_pump, neP)"
    and S: "shape4 (sol1 sim_EM_Stokes) = (3, 6, num_modes sim_EM_Stokes, neS)"
    and tbl: "\<forall>el<n_msh_el sim_AC.
        \<exists>v. el_convert_tbl sim_AC el = Some v \<and> 0 \<le> v \<and> v < int neP \<and> v < int neS"
  shows "\<exists>tp ts. trim_fields sim_EM_pump sim_EM_Stokes sim_AC = Inr (tp, ts) \<and>
     shape4 tp = (3, 6, num_modes sim_EM_pump, n_msh_el sim_AC) \<and>
     shape4 ts = (3, 6, num_modes sim_EM_Stokes, n_msh_el sim_AC) \<and>
     (\<forall>x<3. \<forall>n<6. \<forall>el<n_msh_el sim_AC. \<forall>new_el. el_convert_tbl sim_AC el = Some new_el \<longrightarrow>
        (\<forall>ival<num_modes sim_EM_pump.
           elems4 tp (x, n, ival, el) = elems4 (sol1 sim_EM_pump) (x, n, ival, nat new_el)) \<and>
        (\<forall>ival<num_modes sim_EM_Stokes.
           elems4 ts (x, n, ival, el) = elems4 (sol1 sim_EM_Stokes) (x, n, ival, nat new_el)))"
proof -
  from trim_fields_ok[OF P S] tbl obtain st where
    st: "trim_fields sim_EM_pump sim_EM_Stokes sim_AC = Inr st"
      "trimmed_pair sim_EM_pump sim_EM_Stokes sim_AC st
         {(x, n, el) |x n el. x < 3 \<and> n < 6 \<and> el < n_msh_el sim_AC}"
    by blast
  obtain tp ts where [simp]: "st = (tp, ts)" by (cases st)
  from st(2) show ?thesis
    using st(1) by (auto simp: trimmed_pair_def trimmed_on_def cells_def want_def)
qed

subsection \<open>The course of a run\<close>

lemma gain_and_qs_cases:
  assumes "gain_and_qs K P S A k vp vs va fq tso = (tr, r)"
  shows "(tr = [] \<and> isl r) \<or>
    (\<exists>ip iS iA tp ts eps.
       fortran_ival vp = Inr ip \<and> fortran_ival vs = Inr iS \<and> fortran_ival va = Inr iA \<and>
       trim_fields P S A = Inr (tp, ts) \<and> relevant_eps_effs_of P A = Inr eps \<and>
       ((\<exists>e. alpha_and_Q K P A k fq = (tr, Inl e) \<and> r = Inl e) \<or>
        (\<exists>tr1 alpha Qf tr2 Q_PE tr3 Q_MB.
           alpha_and_Q K P A k fq = (tr1, Inr (alpha, Qf)) \<and>
           photoelastic_step K P (pe_call_args P S A k ip iS iA tp ts eps) = (tr2, Q_PE) \<and>
           moving_boundary_step K (mb_call_args P S A ip iS iA tp ts eps tso) = (tr3, Q_MB) \<and>
           tr = tr1 @ tr2 @ tr3 \<and> r = assemble P S A alpha Qf Q_PE Q_MB)))"
  using assms unfolding gain_and_qs_def
  by (auto split: sum.splits prod.splits)

lemma alpha_and_Q_events:
  assumes "alpha_and_Q K P A k fq = (tr, r)" and "ev \<in> set tr"
  shows "ev = Call_ac_alpha_int_v2 (alpha_call_args A k) \<or>
         ev = Call_ac_alpha_int (alpha_call_args A k) Fortran_debug \<or>
         ev = Warning_not_sure ''ac_alpha_int'' \<or> ev = Interrupted ''ac_alpha_int''"
  using assms unfolding alpha_and_Q_def alpha_kernel_step_def not_sure_warning_def Let_def
  by (auto split: option.splits prod.splits outcome.splits if_splits)

lemma photoelastic_step_events:
  assumes "photoelastic_step K P a = (tr, q)" and "ev \<in> set tr"
  shows "ev = Call_photoelastic_int_v2 a \<or> ev = Call_photoelastic_int a \<or>
         ev = Warning_not_sure ''photoelastic_int'' \<or> ev = Interrupted ''photoelastic_int''"
  using assms unfolding photoelastic_step_def pe_kernel_step_def not_sure_warning_def
  by (auto split: option.splits prod.splits outcome.splits if_splits)

lemma moving_boundary_step_events:
  assumes "moving_boundary_step K b = (tr, q)" and "ev \<in> set tr"
  shows "ev = Call_moving_boundary b \<or> ev = Interrupted ''moving_boundary''"
  using assms unfolding moving_boundary_step_def
  by (auto split: outcome.splits)

lemma photoelastic_step_call:
  assumes "photoelastic_step K P a = (tr, q)"
  shows "(Call_photoelastic_int_v2 a \<in> set tr \<and>
            (case q of Some Q \<Rightarrow> photoelastic_int_v2 K a = Returned Q
             | None \<Rightarrow> photoelastic_int_v2 K a = KeyboardInterrupt
                 \<and> Interrupted ''photoelastic_int'' \<in> set tr)) \<or>
         (Call_photoelastic_int a \<in> set tr \<and>
            (case q of Some Q \<Rightarrow> photoelastic_int K a = Returned Q
             | None \<Rightarrow> photoelastic_int K a = KeyboardInterrupt
                 \<and> Interrupted ''photoelastic_int'' \<in> set tr))"
  using assms unfolding photoelastic_step_def pe_kernel_step_def
  by (auto split: outcome.splits if_splits)

lemma moving_boundary_step_call:
  assumes "moving_boundary_step K b = (tr, q)"
  shows "Call_moving_boundary b \<in> set tr \<and>
         (case q of Some Q \<Rightarrow> moving_boundary K b = Returned Q
          | None \<Rightarrow> moving_boundary K b = KeyboardInterrupt
              \<and> Interrupted ''moving_boundary'' \<in> set tr)"
  using assms unfolding moving_boundary_step_def
  by (auto split: outcome.splits)

lemma assemble_Inr:
  assumes "assemble P S A alpha Qf Q_PE Q_MB = Inr res"
  shows "\<exists>qpe qmb nf. Q_PE = Some qpe \<and> Q_MB = Some qmb \<and>
     normal_fact_of P S A alpha = Inr nf \<and>
     res = \<lparr>SBS_gain = normalise (gain_of P A (\<lambda>i j k. qpe i j k + qmb i j k)) nf,
            SBS_gain_PE = normalise (gain_of P A qpe) nf,
            SBS_gain_MB = normalise (gain_of P A qmb) nf,
            alpha_out = alpha, Q_factors = Qf\<rparr>"
  using assms unfolding assemble_def Let_def
  by (auto split: option.splits sum.splits)

text \<open>The events of a run that returns or raises after the selectors and the fields are set up.\<close>

lemma gain_and_qs_events:
  assumes run: "gain_and_qs K P S A k vp vs va fq tso = (tr, r)" and ev: "ev \<in> set tr"
  shows "\<exists>ip iS iA tp ts eps.
       fortran_ival vp = Inr ip \<and> fortran_ival vs = Inr iS \<and> fortran_ival va = Inr iA \<and>
       trim_fields P S A = Inr (tp, ts) \<and> relevant_eps_effs_of P A = Inr eps \<and>
       (ev = Call_ac_alpha_int_v2 (alpha_call_args A k) \<or>
        ev = Call_ac_alpha_int (alpha_call_args A k) Fortran_debug \<or>
        ev = Warning_not_sure ''ac_alpha_int'' \<or> ev = Interrupted ''ac_alpha_int'' \<or>
        ev = Call_photoelastic_int_v2 (pe_call_args P S A k ip iS iA tp ts eps) \<or>
        ev = Call_photoelastic_int (pe_call_args P S A k ip iS iA tp ts eps) \<or>
        ev = Warning_not_sure ''photoelastic_int'' \<or> ev = Interrupted ''photoelastic_int'' \<or>
        ev = Call_moving_boundary (mb_call_args P S A ip iS iA tp ts eps tso) \<or>
        ev = Interrupted ''moving_boundary'')"
proof -
  from gain_and_qs_cases[OF run] ev obtain ip iS iA tp ts eps where
    sel: "fortran_ival vp = Inr ip" "fortran_ival vs = Inr iS" "fortran_ival va = Inr iA"
      "trim_fields P S A = Inr (tp, ts)" "relevant_eps_effs_of P A = Inr eps"
    and alt: "(\<exists>e. alpha_and_Q K P A k fq = (tr, Inl e) \<and> r = Inl e) \<or>
        (\<exists>tr1 alpha Qf tr2 Q_PE tr3 Q_MB.
           alpha_and_Q K P A k fq = (tr1, Inr (alpha, Qf)) \<and>
           photoelastic_step K P (pe_call_args P S A k ip iS iA tp ts eps) = (tr2, Q_PE) \<and>
           moving_boundary_step K (mb_call_args P S A ip iS iA tp ts eps tso) = (tr3, Q_MB) \<and>
           tr = tr1 @ tr2 @ tr3 \<and> r = assemble P S A alpha Qf Q_PE Q_MB)"
    by auto
  from alt have "ev = Call_ac_alpha_int_v2 (alpha_call_args A k) \<or>
        ev = Call_ac_alpha_int (alpha_call_args A k) Fortran_debug \<or>
        ev = Warning_not_sure ''ac_alpha_int'' \<or> ev = Interrupted ''ac_alpha_int'' \<or>
        ev = Call_photoelastic_int_v2 (pe_call_args P S A k ip iS iA tp ts eps) \<or>
        ev = Call_photoelastic_int (pe_call_args P S A k ip iS iA tp ts eps) \<or>
        ev = Warning_not_sure ''photoelastic_int'' \<or> ev = Interrupted ''photoelastic_int'' \<or>
        ev = Call_moving_boundary (mb_call_args P S A ip iS iA tp ts eps tso) \<or>
        ev = Interrupted ''moving_boundary''"
  proof
    assume "\<exists>e. alpha_and_Q K P A k fq = (tr, Inl e) \<and> r = Inl e"
    then show ?thesis using alpha_and_Q_events ev by blast
  next
    assume "\<exists>tr1 alpha Qf tr2 Q_PE tr3 Q_MB.
           alpha_and_Q K P A k fq = (tr1, Inr (alpha, Qf)) \<and>
           photoelastic_step K P (pe_call_args P S A k ip iS iA tp ts eps) = (tr2, Q_PE) \<and>
           moving_boundary_step K (mb_call_args P S A ip iS iA tp ts eps tso) = (tr3, Q_MB) \<and>
           tr = tr1 @ tr2 @ tr3 \<and> r = assemble P S A alpha Qf Q_PE Q_MB"
    then obtain tr1 alpha Qf tr2 Q_PE tr3 Q_MB where
      a: "alpha_and_Q K P A k fq = (tr1, Inr (alpha, Qf))"
      and p: "photoelastic_step K P (pe_call_args P S A k ip iS iA tp ts eps) = (tr2, Q_PE)"
      and m: "moving_boundary_step K (mb_call_args P S A ip iS iA tp ts eps tso) = (tr3, Q_MB)"
      and tr: "tr = tr1 @ tr2 @ tr3" by blast
    from ev tr consider "ev \<in> set tr1" | "ev \<in> set tr2" | "ev \<in> set tr3" by auto
    then show ?thesis
    proof cases
      case 1 with alpha_and_Q_events[OF a] show ?thesis by blast
    next
      case 2 with photoelastic_step_events[OF p] show ?thesis by blast
    next
      case 3 with moving_boundary_step_events[OF m] show ?thesis by blast
    qed
  qed
  with sel show ?thesis by blast
qed

text \<open>A run that returns has called a photoelastic routine and the moving-boundary routine.\<close>

lemma gain_and_qs_returns:
  assumes run: "gain_and_qs K P S A k vp vs va fq tso = (tr, Inr res)"
  shows "\<exists>ip iS iA tp ts eps tr1 alpha Qf tr2 qpe tr3 qmb nf.
       fortran_ival vp = Inr ip \<and> fortran_ival vs = Inr iS \<and> fortran_ival va = Inr iA \<and>
       trim_fields P S A = Inr (tp, ts) \<and> relevant_eps_effs_of P A = Inr eps \<and>
       alpha_and_Q K P A k fq = (tr1, Inr (alpha, Qf)) \<and>
       photoelastic_step K P (pe_call_args P S A k ip iS iA tp ts eps) = (tr2, Some qpe) \<and>
       moving_boundary_step K (mb_call_args P S A ip iS iA tp ts eps tso) = (tr3, Some qmb) \<and>
       tr = tr1 @ tr2 @ tr3 \<and>
       normal_fact_of P S A alpha = Inr nf \<and>
       res = \<lparr>SBS_gain = normalise (gain_of P A (\<lambda>i j k. qpe i j k + qmb i j k)) nf,
              SBS_gain_PE = normalise (gain_of P A qpe) nf,
              SBS_gain_MB = normalise (gain_of P A qmb) nf,
              alpha_out = alpha, Q_factors = Qf\<rparr>"
proof -
  from gain_and_qs_cases[OF run] obtain ip iS iA tp ts eps tr1 alpha Qf tr2 Q_PE tr3 Q_MB where
    sel: "fortran_ival vp = Inr ip" "fortran_ival vs = Inr iS" "fortran_ival va = Inr iA"
      "trim_fields P S A = Inr (tp, ts)" "relevant_eps_effs_of P A = Inr eps"
    and a: "alpha_and_Q K P A k fq = (tr1, Inr (alpha, Qf))"
    and p: "photoelastic_step K P (pe_call_args P S A k ip iS iA tp ts eps) = (tr2, Q_PE)"
    and m: "moving_boundary_step K (mb_call_args P S A ip iS iA tp ts eps tso) = (tr3, Q_MB)"
    and tr: "tr = tr1 @ tr2 @ tr3" and r: "Inr res = assemble P S A alpha Qf Q_PE Q_MB"
    by auto
  from assemble_Inr[OF r[symmetric]] obtain qpe qmb nf where
    "Q_PE = Some qpe" "Q_MB = Some qmb" "normal_fact_of P S A alpha = Inr nf"
    "res = \<lparr>SBS_gain = normalise (gain_of P A (\<lambda>i j k. qpe i j k + qmb i j k)) nf,
            SBS_gain_PE = normalise (gain_of P A qpe) nf,
            SBS_gain_MB = normalise (gain_of P A qmb) nf,
            alpha_out = alpha, Q_factors = Qf\<rparr>" by blast
  with sel a p m tr show ?thesis by blast
qed

lemma gain_and_qs_elim:
  assumes "gain_and_qs K P S A k vp vs va fq tso = (tr, r)"
  obtains (early) "tr = []" "isl r"
  | (alpha_raised) e where "alpha_and_Q K P A k fq = (tr, Inl e)" "r = Inl e"
  | (full) ip iS iA tp ts eps tr1 alpha Qf tr2 Q_PE tr3 Q_MB where
      "fortran_ival vp = Inr ip" "fortran_ival vs = Inr iS" "fortran_ival va = Inr iA"
      "trim_fields P S A = Inr (tp, ts)" "relevant_eps_effs_of P A = Inr eps"
      "alpha_and_Q K P A k fq = (tr1, Inr (alpha, Qf))"
      "photoelastic_step K P (pe_call_args P S A k ip iS iA tp ts eps) = (tr2, Q_PE)"
      "moving_boundary_step K (mb_call_args P S A ip iS iA tp ts eps tso) = (tr3, Q_MB)"
      "tr = tr1 @ tr2 @ tr3" "r = assemble P S A alpha Qf Q_PE Q_MB"
  using gain_and_qs_cases[OF assms] by blast


subsection \<open>The small waveguide, evaluated\<close>

lemma ex_trim:
  "\<exists>tp ts. trim_fields ex_EM ex_EM ex_AC = Inr (tp, ts)"
proof -
  have h1: "shape4 (sol1 ex_EM) = (3, 6, num_modes ex_EM, 2)" by (simp add: ex_EM_def)
  have h2: "\<And>el. el < n_msh_el ex_AC \<Longrightarrow>
      \<exists>v. el_convert_tbl ex_AC el = Some v \<and> 0 \<le> v \<and> v < int 2 \<and> v < int 2"
    by (simp add: ex_AC_def)
  from trim_fields_ok[OF h1 h1 h2] show ?thesis by auto
qed

lemma ex_eps: "relevant_eps_effs_of ex_EM ex_AC = Inr [4]"
  by (simp add: relevant_eps_effs_of_def ex_EM_def ex_AC_def ex_struct_def get1_def upt_conv_Cons)

lemma ex_linear: "is_linear_shape ex_EM"
  by (simp add: is_linear_shape_def ex_EM_def ex_struct_def)

lemma ex_nf: "normal_fact_of ex_EM ex_EM ex_AC [a, b, c] =
   Inr [[[20 * complex_of_real a, 20 * complex_of_real b, 20 * complex_of_real c]]]"
  by (simp add: normal_fact_of_def ex_EM_def ex_AC_def get1_def upt_conv_Cons)

lemma ex_run_fixed:
  "\<exists>tp ts. trim_fields ex_EM ex_EM ex_AC = Inr (tp, ts) \<and>
     gain_and_qs ex_kernel ex_EM ex_EM ex_AC 10000000 (PyInt 0) (PyInt 0) (PyStr ''All'')
       (Some 500) None =
     ([Call_photoelastic_int_v2 (pe_call_args ex_EM ex_EM ex_AC 10000000 1 1 (- 1) tp ts [4]),
       Call_moving_boundary (mb_call_args ex_EM ex_EM ex_AC 1 1 (- 1) tp ts [4] None)],
      Inr \<lparr>SBS_gain = [[[Num (21 / 50000), Num (21 / 25000), Num (21 / 25000)]]],
           SBS_gain_PE = [[[Num (21 / 100000), Num (21 / 100000), Num (21 / 100000)]]],
           SBS_gain_MB = [[[Num (21 / 100000), Num (21 / 100000), Num (21 / 100000)]]],
           alpha_out = [10000, 10000, 10000], Q_factors = [Num 500, Num 500, Num 500]\<rparr>)"
proof -
  from ex_trim obtain tp ts where t: "trim_fields ex_EM ex_EM ex_AC = Inr (tp, ts)" by blast
  have a: "alpha_and_Q ex_kernel ex_EM ex_AC 10000000 (Some 500) =
      ([], Inr ([10000, 10000, 10000], [Num 500, Num 500, Num 500]))"
    by (simp add: alpha_and_Q_def ex_AC_def numeral_3_eq_3)
  have g: "omega_EM ex_EM = 3" "Omega_AC ex_AC = (\<lambda>k. 7)"
    by (simp_all add: ex_EM_def ex_AC_def)
  have kp: "\<And>a. photoelastic_int_v2 ex_kernel a = Returned (\<lambda>i j k. 1)"
    and km: "\<And>b. moving_boundary ex_kernel b = Returned (\<lambda>i j k. if k = 0 then \<i> else 1)"
    by (simp_all add: ex_kernel_def)
  show ?thesis
    using t
    by (simp add: gain_and_qs_def fortran_ival_def ex_eps a photoelastic_step_def
        pe_kernel_step_def ex_linear moving_boundary_step_def kp km assemble_def
        ex_nf normalise_def gain_of_def g np_divide_def upt_conv_Cons)
qed

lemma ex_trim_zero:
  "\<exists>tp ts. trim_fields ex_EM ex_EM_zero ex_AC = Inr (tp, ts)"
proof -
  have h1: "shape4 (sol1 ex_EM) = (3, 6, num_modes ex_EM, 2)" by (simp add: ex_EM_def)
  have h1': "shape4 (sol1 ex_EM_zero) = (3, 6, num_modes ex_EM_zero, 2)"
    by (simp add: ex_EM_def ex_EM_zero_def)
  have h2: "\<And>el. el < n_msh_el ex_AC \<Longrightarrow>
      \<exists>v. el_convert_tbl ex_AC el = Some v \<and> 0 \<le> v \<and> v < int 2 \<and> v < int 2"
    by (simp add: ex_AC_def)
  from trim_fields_ok[OF h1 h1' h2] show ?thesis by auto
qed

lemma ex_nf_zero: "normal_fact_of ex_EM ex_EM_zero ex_AC [a, b, c] = Inr [[[0, 0, 0]]]"
  by (simp add: normal_fact_of_def ex_EM_def ex_EM_zero_def ex_AC_def get1_def upt_conv_Cons)

lemma ex_run_zero:
  "snd (gain_and_qs ex_kernel ex_EM ex_EM_zero ex_AC 10000000 (PyInt 0) (PyInt 0) (PyStr ''All'')
       (Some 500) None) =
      Inr \<lparr>SBS_gain = [[[NonFinite, NonFinite, NonFinite]]],
           SBS_gain_PE = [[[NonFinite, NonFinite, NonFinite]]],
           SBS_gain_MB = [[[NonFinite, NonFinite, NonFinite]]],
           alpha_out = [10000, 10000, 10000], Q_factors = [Num 500, Num 500, Num 500]\<rparr>"
proof -
  from ex_trim_zero obtain tp ts where t: "trim_fields ex_EM ex_EM_zero ex_AC = Inr (tp, ts)" by blast
  have a: "alpha_and_Q ex_kernel ex_EM ex_AC 10000000 (Some 500) =
      ([], Inr ([10000, 10000, 10000], [Num 500, Num 500, Num 500]))"
    by (simp add: alpha_and_Q_def ex_AC_def numeral_3_eq_3)
  have kp: "\<And>a. photoelastic_int_v2 ex_kernel a = Returned (\<lambda>i j k. 1)"
    and km: "\<And>b. moving_boundary ex_kernel b = Returned (\<lambda>i j k. if k = 0 then \<i> else 1)"
    by (simp_all add: ex_kernel_def)
  show ?thesis
    using t
    by (simp add: gain_and_qs_def fortran_ival_def ex_eps a photoelastic_step_def
        pe_kernel_step_def ex_linear moving_boundary_step_def kp km assemble_def
        ex_nf_zero normalise_def np_divide_def upt_conv_Cons)
qed

lemma ex_run_interrupted:
  "\<exists>tp ts. gain_and_qs ex_kernel_interrupted ex_EM ex_EM ex_AC 10000000 (PyInt 0) (PyInt 0)
       (PyStr ''All'') (Some 500) None =
     ([Call_photoelastic_int_v2 (pe_call_args ex_EM ex_EM ex_AC 10000000 1 1 (- 1) tp ts [4]),
       Interrupted ''photoelastic_int'',
       Call_moving_boundary (mb_call_args ex_EM ex_EM ex_AC 1 1 (- 1) tp ts [4] None)],
      Inl UnboundLocalError)"
proof -
  from ex_trim obtain tp ts where t: "trim_fields ex_EM ex_EM ex_AC = Inr (tp, ts)" by blast
  have a: "alpha_and_Q ex_kernel_interrupted ex_EM ex_AC 10000000 (Some 500) =
      ([], Inr ([10000, 10000, 10000], [Num 500, Num 500, Num 500]))"
    by (simp add: alpha_and_Q_def ex_AC_def numeral_3_eq_3)
  have kp: "\<And>a. photoelastic_int_v2 ex_kernel_interrupted a = KeyboardInterrupt"
    and km: "\<And>b. moving_boundary ex_kernel_interrupted b = Returned (\<lambda>i j k. if k = 0 then \<i> else 1)"
    by (simp_all add: ex_kernel_def ex_kernel_interrupted_def)
  show ?thesis
    apply (rule exI[of _ tp])
    apply (rule exI[of _ ts])
    apply (simp add: gain_and_qs_def fortran_ival_def ex_eps a t photoelastic_step_def
        pe_kernel_step_def ex_linear moving_boundary_step_def kp km assemble_def)
    done
qed


theorem trimmed_fields_reindexed_witness:
  "\<exists>tp ts. trim_fields ex_EM ex_EM ex_AC = Inr (tp, ts) \<and>
     shape4 tp = (3, 6, 1, 1) \<and> shape4 ts = (3, 6, 1, 1) \<and>
     elems4 tp (2, 5, 0, 0) = 12 \<and> elems4 ts (0, 0, 0, 0) = 10"
proof -
  have h1: "shape4 (sol1 ex_EM) = (3, 6, num_modes ex_EM, 2)" by (simp add: ex_EM_def)
  have h2: "\<forall>el<n_msh_el ex_AC.
      \<exists>v. el_convert_tbl ex_AC el = Some v \<and> 0 \<le> v \<and> v < int 2 \<and> v < int 2"
    by (simp add: ex_AC_def)
  from trimmed_fields_reindexed[OF h1 h1 h2] obtain tp ts where
    t: "trim_fields ex_EM ex_EM ex_AC = Inr (tp, ts)"
      "shape4 tp = (3, 6, num_modes ex_EM, n_msh_el ex_AC)"
      "shape4 ts = (3, 6, num_modes ex_EM, n_msh_el ex_AC)"
    and e: "\<forall>x<3. \<forall>n<6. \<forall>el<n_msh_el ex_AC. \<forall>new_el. el_convert_tbl ex_AC el = Some new_el \<longrightarrow>
        (\<forall>ival<num_modes ex_EM.
           elems4 tp (x, n, ival, el) = elems4 (sol1 ex_EM) (x, n, ival, nat new_el)) \<and>
        (\<forall>ival<num_modes ex_EM.
           elems4 ts (x, n, ival, el) = elems4 (sol1 ex_EM) (x, n, ival, nat new_el))"
    by blast
  have tbl: "el_convert_tbl ex_AC 0 = Some 1" "0 < n_msh_el ex_AC" "0 < num_modes ex_EM"
    by (simp_all add: ex_AC_def ex_EM_def)
  from e[rule_format, of 2 5 0 1] tbl
  have "\<forall>ival<num_modes ex_EM.
           elems4 tp (2, 5, ival, 0) = elems4 (sol1 ex_EM) (2, 5, ival, nat 1)"
    by simp
  with tbl have "elems4 tp (2, 5, 0, 0) = elems4 (sol1 ex_EM) (2, 5, 0, nat 1)"
    by blast
  moreover from e[rule_format, of 0 0 0 1] tbl
  have "\<forall>ival<num_modes ex_EM.
           elems4 ts (0, 0, ival, 0) = elems4 (sol1 ex_EM) (0, 0, ival, nat 1)"
    by simp
  with tbl have "elems4 ts (0, 0, 0, 0) = elems4 (sol1 ex_EM) (0, 0, 0, nat 1)"
    by blast
  ultimately show ?thesis using t by (simp add: ex_EM_def ex_AC_def)
qed

subsection \<open>The mode selectors\<close>

lemma fortran_ival_Inr:
  assumes "fortran_ival v = Inr i"
  shows "sel_encoding v i"
  using assms by (cases v) (auto simp: fortran_ival_def split: if_splits)

lemma sel_encoding_sentinel:
  assumes "sel_encoding v i" and "documented_sel v"
  shows "i = - 1 \<longleftrightarrow> v = PyStr ''All''"
  using assms by (cases v) auto


text \<open>
  C10. In every call of a photoelastic routine and of the moving-boundary routine, each of
  the three mode selectors is passed as \<open>- 1\<close> when the argument is \<^verbatim>\<open>'All'\<close> and as the
  index plus one when it is an integer, and nothing else is passed; for the documented
  arguments (\<^verbatim>\<open>'All'\<close> or an index counted from zero) the value \<open>- 1\<close> is passed exactly
  when the argument is \<^verbatim>\<open>'All'\<close>. A run that returns has made both calls. (The acoustic
  loss routines take no mode selector.)
\<close>

theorem mode_selectors_forwarded:
  assumes run: "gain_and_qs K sim_EM_pump sim_EM_Stokes sim_AC k_AC EM_ival_pump EM_ival_Stokes
      AC_ival fixed_Q typ_select_out = (tr, r)"
  shows "(\<forall>a. Call_photoelastic_int_v2 a \<in> set tr \<or> Call_photoelastic_int a \<in> set tr \<longrightarrow>
            sel_encoding EM_ival_pump (pe_ival_pump a) \<and>
            sel_encoding EM_ival_Stokes (pe_ival_Stokes a) \<and>
            sel_encoding AC_ival (pe_ival_AC a) \<and>
            (documented_sel EM_ival_pump \<longrightarrow>
               (pe_ival_pump a = - 1 \<longleftrightarrow> EM_ival_pump = PyStr ''All'')) \<and>
            (documented_sel EM_ival_Stokes \<longrightarrow>
               (pe_ival_Stokes a = - 1 \<longleftrightarrow> EM_ival_Stokes = PyStr ''All'')) \<and>
            (documented_sel AC_ival \<longrightarrow>
               (pe_ival_AC a = - 1 \<longleftrightarrow> AC_ival = PyStr ''All''))) \<and>
         (\<forall>b. Call_moving_boundary b \<in> set tr \<longrightarrow>
            sel_encoding EM_ival_pump (mb_ival_pump b) \<and>
            sel_encoding EM_ival_Stokes (mb_ival_Stokes b) \<and>
            sel_encoding AC_ival (mb_ival_AC b) \<and>
            (documented_sel EM_ival_pump \<longrightarrow>
               (mb_ival_pump b = - 1 \<longleftrightarrow> EM_ival_pump = PyStr ''All'')) \<and>
            (documented_sel EM_ival_Stokes \<longrightarrow>
               (mb_ival_Stokes b = - 1 \<longleftrightarrow> EM_ival_Stokes = PyStr ''All'')) \<and>
            (documented_sel AC_ival \<longrightarrow>
               (mb_ival_AC b = - 1 \<longleftrightarrow> AC_ival = PyStr ''All''))) \<and>
         (\<not> isl r \<longrightarrow>
            (\<exists>a. Call_photoelastic_int_v2 a \<in> set tr \<or> Call_photoelastic_int a \<in> set tr) \<and>
            (\<exists>b. Call_moving_boundary b \<in> set tr))"
proof -
  have pe: "sel_encoding EM_ival_pump (pe_ival_pump a) \<and>
            sel_encoding EM_ival_Stokes (pe_ival_Stokes a) \<and>
            sel_encoding AC_ival (pe_ival_AC a)"
    if a: "Call_photoelastic_int_v2 a \<in> set tr \<or> Call_photoelastic_int a \<in> set tr" for a
  proof -
    from a obtain ev where ev: "ev \<in> set tr" "ev = Call_photoelastic_int_v2 a \<or> ev = Call_photoelastic_int a"
      by blast
    from gain_and_qs_events[OF run ev(1)] ev(2) obtain ip iS iA tp ts eps where
      sel: "fortran_ival EM_ival_pump = Inr ip" "fortran_ival EM_ival_Stokes = Inr iS"
        "fortran_ival AC_ival = Inr iA"
      and "a = pe_call_args sim_EM_pump sim_EM_Stokes sim_AC k_AC ip iS iA tp ts eps"
      by auto
    then show ?thesis
      using fortran_ival_Inr[OF sel(1)] fortran_ival_Inr[OF sel(2)] fortran_ival_Inr[OF sel(3)]
      by (simp add: pe_call_args_def)
  qed
  have mb: "sel_encoding EM_ival_pump (mb_ival_pump b) \<and>
            sel_encoding EM_ival_Stokes (mb_ival_Stokes b) \<and>
            sel_encoding AC_ival (mb_ival_AC b)"
    if b: "Call_moving_boundary b \<in> set tr" for b
  proof -
    from gain_and_qs_events[OF run b] obtain ip iS iA tp ts eps where
      sel: "fortran_ival EM_ival_pump = Inr ip" "fortran_ival EM_ival_Stokes = Inr iS"
        "fortran_ival AC_ival = Inr iA"
      and "b = mb_call_args sim_EM_pump sim_EM_Stokes sim_AC ip iS iA tp ts eps typ_select_out"
      by auto
    then show ?thesis
      using fortran_ival_Inr[OF sel(1)] fortran_ival_Inr[OF sel(2)] fortran_ival_Inr[OF sel(3)]
      by (simp add: mb_call_args_def)
  qed
  have made: "(\<exists>a. Call_photoelastic_int_v2 a \<in> set tr \<or> Call_photoelastic_int a \<in> set tr) \<and>
            (\<exists>b. Call_moving_boundary b \<in> set tr)" if "\<not> isl r"
  proof -
    from that obtain res where "r = Inr res" by (cases r) auto
    from gain_and_qs_returns[OF run[unfolded this]] obtain a b tr1 tr2 tr3 qpe qmb where
      p: "photoelastic_step K sim_EM_pump a = (tr2, Some qpe)"
      and m: "moving_boundary_step K b = (tr3, Some qmb)" and tr: "tr = tr1 @ tr2 @ tr3" by blast
    from photoelastic_step_call[OF p] moving_boundary_step_call[OF m] tr
    show ?thesis by auto
  qed
  from pe mb made sel_encoding_sentinel show ?thesis by blast
qed

theorem mode_selectors_forwarded_witness:
  "\<exists>a b. Call_photoelastic_int_v2 a \<in> set (fst (gain_and_qs ex_kernel ex_EM ex_EM ex_AC 10000000
       (PyInt 0) (PyInt 0) (PyStr ''All'') (Some 500) None)) \<and>
     Call_moving_boundary b \<in> set (fst (gain_and_qs ex_kernel ex_EM ex_EM ex_AC 10000000
       (PyInt 0) (PyInt 0) (PyStr ''All'') (Some 500) None)) \<and>
     pe_ival_pump a = 1 \<and> pe_ival_Stokes a = 1 \<and> pe_ival_AC a = - 1 \<and>
     mb_ival_pump b = 1 \<and> mb_ival_Stokes b = 1 \<and> mb_ival_AC b = - 1"
proof -
  obtain tr r where run: "gain_and_qs ex_kernel ex_EM ex_EM ex_AC 10000000
       (PyInt 0) (PyInt 0) (PyStr ''All'') (Some 500) None = (tr, r)" by force
  with ex_run_fixed obtain a b where
    ab: "Call_photoelastic_int_v2 a \<in> set tr" "Call_moving_boundary b \<in> set tr" by auto
  from mode_selectors_forwarded[OF run] ab
  have "sel_encoding (PyInt 0) (pe_ival_pump a) \<and> sel_encoding (PyInt 0) (pe_ival_Stokes a) \<and>
        sel_encoding (PyStr ''All'') (pe_ival_AC a) \<and>
        sel_encoding (PyInt 0) (mb_ival_pump b) \<and> sel_encoding (PyInt 0) (mb_ival_Stokes b) \<and>
        sel_encoding (PyStr ''All'') (mb_ival_AC b)"
    by blast
  then show ?thesis using ab run by auto
qed

subsection \<open>The acoustic loss and the quality factors\<close>

lemma np_scale_one [simp]: "np_scale 1 x = x"
  by (cases x) simp_all

lemma alpha_and_Q_fixed:
  assumes "alpha_and_Q K P A k (Some q) = (tr, r)"
  shows "tr = [] \<and> (q = 0 \<longrightarrow> r = Inl ZeroDivisionError) \<and>
     (q \<noteq> 0 \<longrightarrow> r = Inr (replicate (num_modes A) (0.5 * (k / q)), replicate (num_modes A) (Num q)))"
  using assms by (auto simp: alpha_and_Q_def split: if_splits)

lemma alpha_and_Q_computed:
  assumes "alpha_and_Q K P A k None = (tr, Inr (alpha, Qf))"
  shows "\<exists>al. ((Call_ac_alpha_int_v2 (alpha_call_args A k) \<in> set tr \<and>
                 ac_alpha_int_v2 K (alpha_call_args A k) = Returned al) \<or>
                (Call_ac_alpha_int (alpha_call_args A k) Fortran_debug \<in> set tr \<and>
                 ac_alpha_int K (alpha_call_args A k) Fortran_debug = Returned al)) \<and>
     alpha = map (\<lambda>k. Re (al k)) [0..<num_modes A] \<and>
     Qf = map (\<lambda>a. np_scale 0.5 (np_divide k a)) alpha"
  using assms unfolding alpha_and_Q_def alpha_kernel_step_def Let_def
  by (auto split: prod.splits outcome.splits if_splits)

lemma alpha_and_Q_length:
  assumes "alpha_and_Q K P A k fq = (tr, Inr (alpha, Qf))"
  shows "length alpha = num_modes A \<and> length Qf = num_modes A"
proof (cases fq)
  case None
  with alpha_and_Q_computed[of K P A k tr alpha Qf] assms show ?thesis by auto
next
  case (Some q)
  with alpha_and_Q_fixed[of K P A k q tr "Inr (alpha, Qf)"] assms show ?thesis
    by (cases "q = 0") auto
qed

text \<open>
  C2. With a \<^verbatim>\<open>fixed_Q\<close> no acoustic-loss routine is called, and the returned
  \<^verbatim>\<open>alpha\<close> is \<open>0.5 * k_AC / fixed_Q\<close> and \<^verbatim>\<open>Q_factors\<close> is \<^verbatim>\<open>fixed_Q\<close> at each of
  the \<^verbatim>\<open>num_modes_AC\<close> entries. Without it an acoustic-loss routine is called, the
  returned \<^verbatim>\<open>alpha\<close> is the real part of the array it returned, and
  \<open>Q_factors[k] = 0.5 * (k_AC / alpha[k])\<close> for every acoustic mode (the division is
  numpy's: non-finite at \<open>alpha[k] = 0\<close>).
\<close>

theorem alpha_and_Q_factors:
  assumes run: "gain_and_qs K sim_EM_pump sim_EM_Stokes sim_AC k_AC EM_ival_pump EM_ival_Stokes
      AC_ival fixed_Q typ_select_out = (tr, r)"
  shows "(\<forall>q. fixed_Q = Some q \<longrightarrow>
            (\<forall>ev\<in>set tr. \<not> is_alpha_call ev) \<and>
            (\<forall>res. r = Inr res \<longrightarrow>
               alpha_out res = replicate (num_modes sim_AC) (0.5 * k_AC / q) \<and>
               Q_factors res = replicate (num_modes sim_AC) (Num q))) \<and>
         (fixed_Q = None \<longrightarrow>
            (\<forall>res. r = Inr res \<longrightarrow>
               (\<exists>a al.
                  ((Call_ac_alpha_int_v2 a \<in> set tr \<and> ac_alpha_int_v2 K a = Returned al) \<or>
                   (\<exists>d. Call_ac_alpha_int a d \<in> set tr \<and> ac_alpha_int K a d = Returned al)) \<and>
                  length (alpha_out res) = num_modes sim_AC \<and>
                  length (Q_factors res) = num_modes sim_AC \<and>
                  (\<forall>k<num_modes sim_AC.
                     alpha_out res ! k = Re (al k) \<and>
                     Q_factors res ! k =
                       (if alpha_out res ! k = 0 then NonFinite
                        else Num (0.5 * (k_AC / alpha_out res ! k)))))))"
proof -
  have nocall: "\<not> is_alpha_call ev" if q: "fixed_Q = Some q" and ev: "ev \<in> set tr" for q ev
  using run
  proof (cases rule: gain_and_qs_elim)
    case early
    with ev show ?thesis by simp
  next
    case (alpha_raised e)
    with alpha_and_Q_fixed[of K sim_EM_pump sim_AC k_AC q tr "Inl e"] q ev show ?thesis by simp
  next
    case (full ip iS iA tp ts eps tr1 alpha Qf tr2 Q_PE tr3 Q_MB)
    from alpha_and_Q_fixed[OF full(6)[unfolded q]] have "tr1 = []" by simp
    with ev full(9) consider "ev \<in> set tr2" | "ev \<in> set tr3" by auto
    then show ?thesis
    proof cases
      case 1 from photoelastic_step_events[OF full(7) 1] show ?thesis by auto
    next
      case 2 from moving_boundary_step_events[OF full(8) 2] show ?thesis by auto
    qed
  qed
  have fixed: "alpha_out res = replicate (num_modes sim_AC) (0.5 * k_AC / q) \<and>
               Q_factors res = replicate (num_modes sim_AC) (Num q)"
    if q: "fixed_Q = Some q" and res: "r = Inr res" for q res
  proof -
    from gain_and_qs_returns[OF run[unfolded res]] obtain tr1 alpha Qf where
      al: "alpha_and_Q K sim_EM_pump sim_AC k_AC fixed_Q = (tr1, Inr (alpha, Qf))"
      and "alpha_out res = alpha" "Q_factors res = Qf" by auto
    with alpha_and_Q_fixed[OF al[unfolded q]] show ?thesis by (cases "q = 0") auto
  qed
  have computed: "\<exists>a al.
                  ((Call_ac_alpha_int_v2 a \<in> set tr \<and> ac_alpha_int_v2 K a = Returned al) \<or>
                   (\<exists>d. Call_ac_alpha_int a d \<in> set tr \<and> ac_alpha_int K a d = Returned al)) \<and>
                  length (alpha_out res) = num_modes sim_AC \<and>
                  length (Q_factors res) = num_modes sim_AC \<and>
                  (\<forall>k<num_modes sim_AC.
                     alpha_out res ! k = Re (al k) \<and>
                     Q_factors res ! k =
                       (if alpha_out res ! k = 0 then NonFinite
                        else Num (0.5 * (k_AC / alpha_out res ! k))))"
    if none: "fixed_Q = None" and res: "r = Inr res" for res
  proof -
    from gain_and_qs_returns[OF run[unfolded res]] obtain tr1 tr2 tr3 alpha Qf where
      al: "alpha_and_Q K sim_EM_pump sim_AC k_AC fixed_Q = (tr1, Inr (alpha, Qf))"
      and tr: "tr = tr1 @ tr2 @ tr3"
      and out: "alpha_out res = alpha" "Q_factors res = Qf" by auto
    from alpha_and_Q_computed[OF al[unfolded none]] obtain al' where
      call: "(Call_ac_alpha_int_v2 (alpha_call_args sim_AC k_AC) \<in> set tr1 \<and>
                 ac_alpha_int_v2 K (alpha_call_args sim_AC k_AC) = Returned al') \<or>
                (Call_ac_alpha_int (alpha_call_args sim_AC k_AC) Fortran_debug \<in> set tr1 \<and>
                 ac_alpha_int K (alpha_call_args sim_AC k_AC) Fortran_debug = Returned al')"
      and alpha: "alpha = map (\<lambda>k. Re (al' k)) [0..<num_modes sim_AC]"
      and Qf: "Qf = map (\<lambda>a. np_scale 0.5 (np_divide k_AC a)) alpha" by blast
    from call tr have c: "(Call_ac_alpha_int_v2 (alpha_call_args sim_AC k_AC) \<in> set tr \<and>
          ac_alpha_int_v2 K (alpha_call_args sim_AC k_AC) = Returned al') \<or>
        (\<exists>d. Call_ac_alpha_int (alpha_call_args sim_AC k_AC) d \<in> set tr \<and>
          ac_alpha_int K (alpha_call_args sim_AC k_AC) d = Returned al')"
      by auto
    have "\<forall>k<num_modes sim_AC.
                     alpha_out res ! k = Re (al' k) \<and>
                     Q_factors res ! k =
                       (if alpha_out res ! k = 0 then NonFinite
                        else Num (0.5 * (k_AC / alpha_out res ! k)))"
      using out alpha Qf by (simp add: np_divide_def)
    moreover have "length (alpha_out res) = num_modes sim_AC" "length (Q_factors res) = num_modes sim_AC"
      using out alpha Qf by simp_all
    ultimately show ?thesis using c by blast
  qed
  from nocall fixed computed show ?thesis by blast
qed

theorem alpha_and_Q_factors_witness:
  "\<exists>res. snd (gain_and_qs ex_kernel ex_EM ex_EM ex_AC 10000000
       (PyInt 0) (PyInt 0) (PyStr ''All'') (Some 500) None) = Inr res \<and>
     alpha_out res = [10000, 10000, 10000] \<and> Q_factors res = [Num 500, Num 500, Num 500] \<and>
     filter is_alpha_call (fst (gain_and_qs ex_kernel ex_EM ex_EM ex_AC 10000000
       (PyInt 0) (PyInt 0) (PyStr ''All'') (Some 500) None)) = []"
proof -
  obtain tr r where run: "gain_and_qs ex_kernel ex_EM ex_EM ex_AC 10000000
       (PyInt 0) (PyInt 0) (PyStr ''All'') (Some 500) None = (tr, r)" by force
  with ex_run_fixed obtain res where res: "r = Inr res" by auto
  from alpha_and_Q_factors[OF run] res
  have "\<forall>ev\<in>set tr. \<not> is_alpha_call ev"
    and "alpha_out res = replicate (num_modes ex_AC) (0.5 * 10000000 / 500)"
    and "Q_factors res = replicate (num_modes ex_AC) (Num 500)"
    by blast+
  then show ?thesis
    using run res by (simp add: ex_AC_def numeral_3_eq_3 filter_empty_conv)
qed

subsection \<open>The gain tensors\<close>

lemma get1_Inr: "get1 xs i = Inr v \<Longrightarrow> i < length xs \<and> v = xs ! i"
  by (auto simp: get1_def split: if_splits)

lemma normal_fact_of_Inr:
  assumes nf: "normal_fact_of P S A alpha = Inr nf"
  shows "length nf = num_modes S"
    and "i < num_modes S \<Longrightarrow> length (nf ! i) = num_modes P"
    and "i < num_modes S \<Longrightarrow> j < num_modes P \<Longrightarrow> length (nf ! i ! j) = num_modes A"
    and "i < num_modes S \<Longrightarrow> j < num_modes P \<Longrightarrow> k < num_modes A \<Longrightarrow>
         nf ! i ! j ! k = EM_mode_power S ! i * EM_mode_power P ! j * AC_mode_power A ! k
             * complex_of_real (alpha ! k)"
proof -
  note f1 = fill_upt[OF nf[unfolded normal_fact_of_def]]
  show "length nf = num_modes S" by (rule f1(1))
  {
    assume i: "i < num_modes S"
    from f1(2)[OF i] obtain P1 where P1: "get1 (EM_mode_power S) i = Inr P1"
      and row: "fill (\<lambda>j.
               case get1 (EM_mode_power P) j of
                 Inl e \<Rightarrow> Inl e
               | Inr P2 \<Rightarrow>
                   fill (\<lambda>k.
                      case get1 (AC_mode_power A) k of
                        Inl e \<Rightarrow> Inl e
                      | Inr P3 \<Rightarrow>
                          (case get1 alpha k of
                             Inl e \<Rightarrow> Inl e
                           | Inr al \<Rightarrow> Inr (P1 * P2 * P3 * complex_of_real al)))
                     [0..<num_modes A])
              [0..<num_modes P] = Inr (nf ! i)"
      by (auto split: sum.splits)
    note f2 = fill_upt[OF row]
    show "length (nf ! i) = num_modes P" by (rule f2(1))
    {
      assume j: "j < num_modes P"
      from f2(2)[OF j] obtain P2 where P2: "get1 (EM_mode_power P) j = Inr P2"
        and col: "fill (\<lambda>k.
                      case get1 (AC_mode_power A) k of
                        Inl e \<Rightarrow> Inl e
                      | Inr P3 \<Rightarrow>
                          (case get1 alpha k of
                             Inl e \<Rightarrow> Inl e
                           | Inr al \<Rightarrow> Inr (P1 * P2 * P3 * complex_of_real al)))
                     [0..<num_modes A] = Inr (nf ! i ! j)"
        by (auto split: sum.splits)
      note f3 = fill_upt[OF col]
      show "length (nf ! i ! j) = num_modes A" by (rule f3(1))
      {
        assume k: "k < num_modes A"
        from f3(2)[OF k] obtain P3 al where "get1 (AC_mode_power A) k = Inr P3"
          "get1 alpha k = Inr al" "nf ! i ! j ! k = P1 * P2 * P3 * complex_of_real al"
          by (auto split: sum.splits)
        with P1 P2 show "nf ! i ! j ! k = EM_mode_power S ! i * EM_mode_power P ! j * AC_mode_power A ! k
             * complex_of_real (alpha ! k)"
          by (auto dest!: get1_Inr)
      }
    }
  }
qed

lemma normalise_nth:
  assumes "i < length nf" "j < length (nf ! i)" "k < length (nf ! i ! j)"
  shows "normalise g nf ! i ! j ! k = np_real (np_divide (g i j k) (nf ! i ! j ! k))"
  using assms by (simp add: normalise_def)

lemma normalise_length:
  "length (normalise g nf) = length nf"
  "i < length nf \<Longrightarrow> length (normalise g nf ! i) = length (nf ! i)"
  "i < length nf \<Longrightarrow> j < length (nf ! i) \<Longrightarrow> length (normalise g nf ! i ! j) = length (nf ! i ! j)"
  by (simp_all add: normalise_def)

text \<open>
  C1. When \<^verbatim>\<open>gain_and_qs\<close> returns, \<^verbatim>\<open>Q_PE\<close> and \<^verbatim>\<open>Q_MB\<close> are the arrays returned
  by the photoelastic and the moving-boundary routine, the three gain tensors have the
  shape \<open>[num_modes_EM_Stokes, num_modes_EM_pump, num_modes_AC]\<close>, and at every index
  \<open>[i, j, k]\<close> the entry of \<^verbatim>\<open>SBS_gain\<close> is the real part of
  \<open>2 * omega_EM * Omega_AC * Re (Q * conj Q)\<close>, with \<open>Q = Q_PE + Q_MB\<close>, divided by
  \<open>EM_mode_power_Stokes[i] * EM_mode_power_pump[j] * AC_mode_power[k] * alpha[k]\<close>
  (\<open>spec_gain_entry\<close> of \<open>spec_normal_fact\<close>); the
  entries of \<^verbatim>\<open>SBS_gain_PE\<close> and \<^verbatim>\<open>SBS_gain_MB\<close> are the same with \<open>Q_PE\<close> and with
  \<open>Q_MB\<close> for \<open>Q\<close>. There is a run in which an entry of \<^verbatim>\<open>SBS_gain\<close> is not the sum of
  the entries of \<^verbatim>\<open>SBS_gain_PE\<close> and \<^verbatim>\<open>SBS_gain_MB\<close>.
\<close>

theorem gain_formula:
  assumes run: "gain_and_qs K sim_EM_pump sim_EM_Stokes sim_AC k_AC EM_ival_pump EM_ival_Stokes
      AC_ival fixed_Q typ_select_out = (tr, Inr res)"
  shows "(\<exists>ap bm Q_PE Q_MB.
      ((Call_photoelastic_int_v2 ap \<in> set tr \<and> photoelastic_int_v2 K ap = Returned Q_PE) \<or>
       (Call_photoelastic_int ap \<in> set tr \<and> photoelastic_int K ap = Returned Q_PE)) \<and>
      Call_moving_boundary bm \<in> set tr \<and> moving_boundary K bm = Returned Q_MB \<and>
      length (SBS_gain res) = num_modes sim_EM_Stokes \<and>
      length (SBS_gain_PE res) = num_modes sim_EM_Stokes \<and>
      length (SBS_gain_MB res) = num_modes sim_EM_Stokes \<and>
      (\<forall>i<num_modes sim_EM_Stokes.
         length (SBS_gain res ! i) = num_modes sim_EM_pump \<and>
         length (SBS_gain_PE res ! i) = num_modes sim_EM_pump \<and>
         length (SBS_gain_MB res ! i) = num_modes sim_EM_pump \<and>
         (\<forall>j<num_modes sim_EM_pump.
            length (SBS_gain res ! i ! j) = num_modes sim_AC \<and>
            length (SBS_gain_PE res ! i ! j) = num_modes sim_AC \<and>
            length (SBS_gain_MB res ! i ! j) = num_modes sim_AC \<and>
            (\<forall>k<num_modes sim_AC.
               SBS_gain res ! i ! j ! k =
                 spec_gain_entry (omega_EM sim_EM_pump) (Omega_AC sim_AC k) (Q_PE i j k + Q_MB i j k)
                   (spec_normal_fact (EM_mode_power sim_EM_Stokes ! i) (EM_mode_power sim_EM_pump ! j)
                      (AC_mode_power sim_AC ! k) (alpha_out res ! k)) \<and>
               SBS_gain_PE res ! i ! j ! k =
                 spec_gain_entry (omega_EM sim_EM_pump) (Omega_AC sim_AC k) (Q_PE i j k)
                   (spec_normal_fact (EM_mode_power sim_EM_Stokes ! i) (EM_mode_power sim_EM_pump ! j)
                      (AC_mode_power sim_AC ! k) (alpha_out res ! k)) \<and>
               SBS_gain_MB res ! i ! j ! k =
                 spec_gain_entry (omega_EM sim_EM_pump) (Omega_AC sim_AC k) (Q_MB i j k)
                   (spec_normal_fact (EM_mode_power sim_EM_Stokes ! i) (EM_mode_power sim_EM_pump ! j)
                      (AC_mode_power sim_AC ! k) (alpha_out res ! k)))))) \<and>
    (\<exists>(K' :: (unit, unit) kernel) P S A k vp vs va fq tso tr' res' x y z.
       gain_and_qs K' P S A k vp vs va fq tso = (tr', Inr res') \<and>
       SBS_gain res' ! 0 ! 0 ! 1 = Num x \<and> SBS_gain_PE res' ! 0 ! 0 ! 1 = Num y \<and>
       SBS_gain_MB res' ! 0 ! 0 ! 1 = Num z \<and> x \<noteq> y + z)"
    (is "?formula \<and> ?not_sum")
proof
  from gain_and_qs_returns[OF run] obtain ap bm tr1 alpha Qf tr2 qpe tr3 qmb nf where
    p: "photoelastic_step K sim_EM_pump ap = (tr2, Some qpe)"
    and m: "moving_boundary_step K bm = (tr3, Some qmb)"
    and tr: "tr = tr1 @ tr2 @ tr3"
    and nf: "normal_fact_of sim_EM_pump sim_EM_Stokes sim_AC alpha = Inr nf"
    and res: "res = \<lparr>SBS_gain = normalise (gain_of sim_EM_pump sim_AC (\<lambda>i j k. qpe i j k + qmb i j k)) nf,
              SBS_gain_PE = normalise (gain_of sim_EM_pump sim_AC qpe) nf,
              SBS_gain_MB = normalise (gain_of sim_EM_pump sim_AC qmb) nf,
              alpha_out = alpha, Q_factors = Qf\<rparr>"
    by blast
  note n = normal_fact_of_Inr[OF nf]
  from photoelastic_step_call[OF p] tr
  have pc: "(Call_photoelastic_int_v2 ap \<in> set tr \<and> photoelastic_int_v2 K ap = Returned qpe) \<or>
       (Call_photoelastic_int ap \<in> set tr \<and> photoelastic_int K ap = Returned qpe)"
    by auto
  from moving_boundary_step_call[OF m] tr
  have mc: "Call_moving_boundary bm \<in> set tr \<and> moving_boundary K bm = Returned qmb"
    by auto
  have len0: "length (SBS_gain res) = num_modes sim_EM_Stokes"
      "length (SBS_gain_PE res) = num_modes sim_EM_Stokes"
      "length (SBS_gain_MB res) = num_modes sim_EM_Stokes"
    using n(1) by (simp_all add: res normalise_length)
  have body: "length (SBS_gain res ! i) = num_modes sim_EM_pump \<and>
         length (SBS_gain_PE res ! i) = num_modes sim_EM_pump \<and>
         length (SBS_gain_MB res ! i) = num_modes sim_EM_pump \<and>
         (\<forall>j<num_modes sim_EM_pump.
            length (SBS_gain res ! i ! j) = num_modes sim_AC \<and>
            length (SBS_gain_PE res ! i ! j) = num_modes sim_AC \<and>
            length (SBS_gain_MB res ! i ! j) = num_modes sim_AC \<and>
            (\<forall>k<num_modes sim_AC.
               SBS_gain res ! i ! j ! k =
                 spec_gain_entry (omega_EM sim_EM_pump) (Omega_AC sim_AC k) (qpe i j k + qmb i j k)
                   (spec_normal_fact (EM_mode_power sim_EM_Stokes ! i) (EM_mode_power sim_EM_pump ! j)
                      (AC_mode_power sim_AC ! k) (alpha_out res ! k)) \<and>
               SBS_gain_PE res ! i ! j ! k =
                 spec_gain_entry (omega_EM sim_EM_pump) (Omega_AC sim_AC k) (qpe i j k)
                   (spec_normal_fact (EM_mode_power sim_EM_Stokes ! i) (EM_mode_power sim_EM_pump ! j)
                      (AC_mode_power sim_AC ! k) (alpha_out res ! k)) \<and>
               SBS_gain_MB res ! i ! j ! k =
                 spec_gain_entry (omega_EM sim_EM_pump) (Omega_AC sim_AC k) (qmb i j k)
                   (spec_normal_fact (EM_mode_power sim_EM_Stokes ! i) (EM_mode_power sim_EM_pump ! j)
                      (AC_mode_power sim_AC ! k) (alpha_out res ! k))))"
    if i: "i < num_modes sim_EM_Stokes" for i
  proof (intro conjI allI impI)
    fix j k assume j: "j < num_modes sim_EM_pump" and k: "k < num_modes sim_AC"
    have l: "i < length nf" "j < length (nf ! i)" "k < length (nf ! i ! j)"
      using n(1) n(2)[OF i] n(3)[OF i j] i j k by simp_all
    show "SBS_gain res ! i ! j ! k =
                 spec_gain_entry (omega_EM sim_EM_pump) (Omega_AC sim_AC k) (qpe i j k + qmb i j k)
                   (spec_normal_fact (EM_mode_power sim_EM_Stokes ! i) (EM_mode_power sim_EM_pump ! j)
                      (AC_mode_power sim_AC ! k) (alpha_out res ! k))"
      by (simp add: res normalise_nth[OF l] n(4)[OF i j k] gain_of_def
          spec_gain_entry_def spec_normal_fact_def)
    show "SBS_gain_PE res ! i ! j ! k =
                 spec_gain_entry (omega_EM sim_EM_pump) (Omega_AC sim_AC k) (qpe i j k)
                   (spec_normal_fact (EM_mode_power sim_EM_Stokes ! i) (EM_mode_power sim_EM_pump ! j)
                      (AC_mode_power sim_AC ! k) (alpha_out res ! k))"
      by (simp add: res normalise_nth[OF l] n(4)[OF i j k] gain_of_def
          spec_gain_entry_def spec_normal_fact_def)
    show "SBS_gain_MB res ! i ! j ! k =
                 spec_gain_entry (omega_EM sim_EM_pump) (Omega_AC sim_AC k) (qmb i j k)
                   (spec_normal_fact (EM_mode_power sim_EM_Stokes ! i) (EM_mode_power sim_EM_pump ! j)
                      (AC_mode_power sim_AC ! k) (alpha_out res ! k))"
      by (simp add: res normalise_nth[OF l] n(4)[OF i j k] gain_of_def
          spec_gain_entry_def spec_normal_fact_def)
  next
    fix j assume j: "j < num_modes sim_EM_pump"
    have l: "i < length nf" "j < length (nf ! i)"
      using n(1) n(2)[OF i] i j by simp_all
    show "length (SBS_gain res ! i ! j) = num_modes sim_AC"
      "length (SBS_gain_PE res ! i ! j) = num_modes sim_AC"
      "length (SBS_gain_MB res ! i ! j) = num_modes sim_AC"
      using n(3)[OF i j] by (simp_all add: res normalise_length(3)[OF l])
  next
    have l: "i < length nf" using n(1) i by simp
    show "length (SBS_gain res ! i) = num_modes sim_EM_pump"
      "length (SBS_gain_PE res ! i) = num_modes sim_EM_pump"
      "length (SBS_gain_MB res ! i) = num_modes sim_EM_pump"
      using n(2)[OF i] by (simp_all add: res normalise_length(2)[OF l])
  qed
  show ?formula
    apply (rule exI[of _ ap])
    apply (rule exI[of _ bm])
    apply (rule exI[of _ qpe])
    apply (rule exI[of _ qmb])
    apply (insert pc mc len0 body)
    apply blast
    done
next
  from ex_run_fixed obtain tr' res' where
    "gain_and_qs ex_kernel ex_EM ex_EM ex_AC 10000000 (PyInt 0) (PyInt 0) (PyStr ''All'')
       (Some 500) None = (tr', Inr res')"
    "SBS_gain res' ! 0 ! 0 ! 1 = Num (21 / 25000)"
    "SBS_gain_PE res' ! 0 ! 0 ! 1 = Num (21 / 100000)"
    "SBS_gain_MB res' ! 0 ! 0 ! 1 = Num (21 / 100000)"
    by auto
  moreover have "(21 / 25000 :: real) \<noteq> 21 / 100000 + 21 / 100000" by simp
  ultimately show ?not_sum
    by blast
qed

theorem gain_formula_witness:
  "\<exists>res. snd (gain_and_qs ex_kernel ex_EM ex_EM ex_AC 10000000
       (PyInt 0) (PyInt 0) (PyStr ''All'') (Some 500) None) = Inr res \<and>
     length (SBS_gain res) = 1 \<and> length (SBS_gain res ! 0) = 1 \<and>
     length (SBS_gain res ! 0 ! 0) = 3 \<and>
     SBS_gain res ! 0 ! 0 ! 0 = Num (21 / 50000) \<and>
     SBS_gain_PE res ! 0 ! 0 ! 0 = Num (21 / 100000) \<and>
     SBS_gain_MB res ! 0 ! 0 ! 0 = Num (21 / 100000)"
proof -
  from ex_run_fixed obtain tr res where
    run: "gain_and_qs ex_kernel ex_EM ex_EM ex_AC 10000000 (PyInt 0) (PyInt 0) (PyStr ''All'')
       (Some 500) None = (tr, Inr res)"
    and al: "alpha_out res = [10000, 10000, 10000]"
    by auto
  have kp: "\<And>a Q. photoelastic_int_v2 ex_kernel a = Returned Q \<Longrightarrow> Q = (\<lambda>i j k. 1)"
    "\<And>a Q. photoelastic_int ex_kernel a = Returned Q \<Longrightarrow> Q = (\<lambda>i j k. 1)"
    and km: "\<And>b Q. moving_boundary ex_kernel b = Returned Q \<Longrightarrow> Q = (\<lambda>i j k. if k = 0 then \<i> else 1)"
    by (auto simp: ex_kernel_def)
  have n: "num_modes ex_EM = 1" "num_modes ex_AC = 3" "omega_EM ex_EM = 3" "Omega_AC ex_AC 0 = 7"
    "EM_mode_power ex_EM = [2]" "AC_mode_power ex_AC = [5, 5, 5]"
    by (simp_all add: ex_EM_def ex_AC_def)
  from gain_formula[OF run, THEN conjunct1] obtain ap bm Q_PE Q_MB where
    pc: "(Call_photoelastic_int_v2 ap \<in> set tr \<and> photoelastic_int_v2 ex_kernel ap = Returned Q_PE) \<or>
       (Call_photoelastic_int ap \<in> set tr \<and> photoelastic_int ex_kernel ap = Returned Q_PE)"
    and mc: "moving_boundary ex_kernel bm = Returned Q_MB"
    and l0: "length (SBS_gain res) = num_modes ex_EM"
    and rows: "\<forall>i<num_modes ex_EM.
         length (SBS_gain res ! i) = num_modes ex_EM \<and>
         length (SBS_gain_PE res ! i) = num_modes ex_EM \<and>
         length (SBS_gain_MB res ! i) = num_modes ex_EM \<and>
         (\<forall>j<num_modes ex_EM.
            length (SBS_gain res ! i ! j) = num_modes ex_AC \<and>
            length (SBS_gain_PE res ! i ! j) = num_modes ex_AC \<and>
            length (SBS_gain_MB res ! i ! j) = num_modes ex_AC \<and>
            (\<forall>k<num_modes ex_AC.
               SBS_gain res ! i ! j ! k =
                 spec_gain_entry (omega_EM ex_EM) (Omega_AC ex_AC k) (Q_PE i j k + Q_MB i j k)
                   (spec_normal_fact (EM_mode_power ex_EM ! i) (EM_mode_power ex_EM ! j)
                      (AC_mode_power ex_AC ! k) (alpha_out res ! k)) \<and>
               SBS_gain_PE res ! i ! j ! k =
                 spec_gain_entry (omega_EM ex_EM) (Omega_AC ex_AC k) (Q_PE i j k)
                   (spec_normal_fact (EM_mode_power ex_EM ! i) (EM_mode_power ex_EM ! j)
                      (AC_mode_power ex_AC ! k) (alpha_out res ! k)) \<and>
               SBS_gain_MB res ! i ! j ! k =
                 spec_gain_entry (omega_EM ex_EM) (Omega_AC ex_AC k) (Q_MB i j k)
                   (spec_normal_fact (EM_mode_power ex_EM ! i) (EM_mode_power ex_EM ! j)
                      (AC_mode_power ex_AC ! k) (alpha_out res ! k))))"
    by blast
  from pc kp have qpe: "Q_PE = (\<lambda>i j k. 1)" by blast
  from mc km have qmb: "Q_MB = (\<lambda>i j k. if k = 0 then \<i> else 1)" by blast
  have z: "(0::nat) < 1" "(0::nat) < 3" by simp_all
  from rows z have shape: "length (SBS_gain res ! 0) = 1" "length (SBS_gain res ! 0 ! 0) = 3"
    unfolding n(1,2) by blast+
  from rows z have
    "SBS_gain res ! 0 ! 0 ! 0 =
       spec_gain_entry (omega_EM ex_EM) (Omega_AC ex_AC 0) (Q_PE 0 0 0 + Q_MB 0 0 0)
         (spec_normal_fact (EM_mode_power ex_EM ! 0) (EM_mode_power ex_EM ! 0)
            (AC_mode_power ex_AC ! 0) (alpha_out res ! 0))"
    "SBS_gain_PE res ! 0 ! 0 ! 0 =
       spec_gain_entry (omega_EM ex_EM) (Omega_AC ex_AC 0) (Q_PE 0 0 0)
         (spec_normal_fact (EM_mode_power ex_EM ! 0) (EM_mode_power ex_EM ! 0)
            (AC_mode_power ex_AC ! 0) (alpha_out res ! 0))"
    "SBS_gain_MB res ! 0 ! 0 ! 0 =
       spec_gain_entry (omega_EM ex_EM) (Omega_AC ex_AC 0) (Q_MB 0 0 0)
         (spec_normal_fact (EM_mode_power ex_EM ! 0) (EM_mode_power ex_EM ! 0)
            (AC_mode_power ex_AC ! 0) (alpha_out res ! 0))"
    unfolding n(1,2) by blast+
  then have "SBS_gain res ! 0 ! 0 ! 0 = Num (21 / 50000)"
    "SBS_gain_PE res ! 0 ! 0 ! 0 = Num (21 / 100000)"
    "SBS_gain_MB res ! 0 ! 0 ! 0 = Num (21 / 100000)"
    by (simp_all add: n al qpe qmb np_divide_def spec_gain_entry_def spec_normal_fact_def)
  with run l0 shape show ?thesis by (simp add: n(1))
qed

subsection \<open>The relevant permittivities\<close>

lemma relevant_loop_Inr:
  assumes "for_loop (\<lambda>el_typ acc.
        if p el_typ
        then (case get1 nl el_typ of Inl e \<Rightarrow> Inl e | Inr nn \<Rightarrow> Inr (acc @ [nn ^ 2]))
        else Inr acc) ts acc0 = Inr l"
  shows "l = acc0 @ map (\<lambda>t. (nl ! t) ^ 2) (filter p ts)"
  using assms
proof (induction ts arbitrary: acc0)
  case Nil
  then show ?case by simp
next
  case (Cons t ts)
  show ?case
  proof (cases "p t")
    case True
    with Cons.prems have lt: "t < length nl"
      by (auto simp: get1_def split: if_splits)
    with Cons.prems True have "for_loop (\<lambda>el_typ acc.
        if p el_typ
        then (case get1 nl el_typ of Inl e \<Rightarrow> Inl e | Inr nn \<Rightarrow> Inr (acc @ [nn ^ 2]))
        else Inr acc) ts (acc0 @ [(nl ! t) ^ 2]) = Inr l"
      by (simp add: get1_def)
    from Cons.IH[OF this] True show ?thesis by simp
  next
    case False
    with Cons.prems Cons.IH show ?thesis by simp
  qed
qed

lemma relevant_loop_total:
  assumes "\<And>t. t \<in> set ts \<Longrightarrow> t < length nl"
  shows "\<exists>l. for_loop (\<lambda>el_typ acc.
        if p el_typ
        then (case get1 nl el_typ of Inl e \<Rightarrow> Inl e | Inr nn \<Rightarrow> Inr (acc @ [nn ^ 2]))
        else Inr acc) ts acc0 = Inr l"
  using assms
proof (induction ts arbitrary: acc0)
  case Nil
  then show ?case by simp
next
  case (Cons t ts)
  then show ?case by (simp add: get1_def)
qed

text \<open>
  C8. The list of relevant permittivities is built without an exception when
  \<^verbatim>\<open>n_list\<close> has an entry for each of the \<^verbatim>\<open>nb_typ_el\<close> material types, and the list
  built consists of the squares \<open>n_list[t]^2\<close> of the types \<open>t\<close>, in the order of the EM
  enumeration \<open>0, 1, ...\<close>, whose number \<open>t + 1\<close> is in \<^verbatim>\<open>typ_el_AC\<close>.
\<close>

theorem relevant_eps_effs_filtered:
  "(nb_typ_el (structure_obj sim_EM_pump) \<le> length (n_list sim_EM_pump) \<longrightarrow>
      (\<exists>l. relevant_eps_effs_of sim_EM_pump sim_AC = Inr l)) \<and>
   (\<forall>l. relevant_eps_effs_of sim_EM_pump sim_AC = Inr l \<longrightarrow>
      l = map (\<lambda>t. (n_list sim_EM_pump ! t) ^ 2)
            (filter (\<lambda>t. int t + 1 \<in> set (typ_el_AC sim_AC))
               [0..<nb_typ_el (structure_obj sim_EM_pump)]))"
proof (intro conjI impI allI)
  assume "nb_typ_el (structure_obj sim_EM_pump) \<le> length (n_list sim_EM_pump)"
  then have "\<And>t. t \<in> set [0..<nb_typ_el (structure_obj sim_EM_pump)] \<Longrightarrow> t < length (n_list sim_EM_pump)"
    by simp
  then show "\<exists>l. relevant_eps_effs_of sim_EM_pump sim_AC = Inr l"
    unfolding relevant_eps_effs_of_def by (rule relevant_loop_total)
next
  fix l
  assume "relevant_eps_effs_of sim_EM_pump sim_AC = Inr l"
  from relevant_loop_Inr[OF this[unfolded relevant_eps_effs_of_def]]
  show "l = map (\<lambda>t. (n_list sim_EM_pump ! t) ^ 2)
            (filter (\<lambda>t. int t + 1 \<in> set (typ_el_AC sim_AC))
               [0..<nb_typ_el (structure_obj sim_EM_pump)])"
    by simp
qed

theorem relevant_eps_effs_filtered_witness:
  "nb_typ_el (structure_obj ex_EM) \<le> length (n_list ex_EM) \<and>
   (\<exists>l. relevant_eps_effs_of ex_EM ex_AC = Inr l \<and> l = [4])"
  using relevant_eps_effs_filtered[of ex_EM ex_AC]
  by (auto simp: ex_EM_def ex_AC_def ex_struct_def upt_conv_Cons)


subsection \<open>The selectors of the moving-boundary routine\<close>

text \<open>
  C9. Every call of the moving-boundary routine gets the list of relevant permittivities,
  the inner selector 1 (its first entry, in Fortran indexing), and as the outer selector 2
  when the list has exactly two entries, whatever \<^verbatim>\<open>typ_select_out\<close> was given,
  else the given \<^verbatim>\<open>typ_select_out\<close>, else \<open>- 1\<close>; and a run that returns has made the call.
\<close>

theorem moving_boundary_selectors:
  assumes run: "gain_and_qs K sim_EM_pump sim_EM_Stokes sim_AC k_AC EM_ival_pump EM_ival_Stokes
      AC_ival fixed_Q typ_select_out = (tr, r)"
  shows "(\<forall>b. Call_moving_boundary b \<in> set tr \<longrightarrow>
            relevant_eps_effs_of sim_EM_pump sim_AC = Inr (mb_eps_effs b) \<and>
            mb_typ_select_in b = 1 \<and>
            mb_typ_select_out b =
              (if length (mb_eps_effs b) = 2 then 2
               else (case typ_select_out of Some v \<Rightarrow> v | None \<Rightarrow> - 1))) \<and>
         (\<not> isl r \<longrightarrow> (\<exists>b. Call_moving_boundary b \<in> set tr))"
proof -
  have calls: "relevant_eps_effs_of sim_EM_pump sim_AC = Inr (mb_eps_effs b) \<and>
            mb_typ_select_in b = 1 \<and>
            mb_typ_select_out b =
              (if length (mb_eps_effs b) = 2 then 2
               else (case typ_select_out of Some v \<Rightarrow> v | None \<Rightarrow> - 1))"
    if b: "Call_moving_boundary b \<in> set tr" for b
  proof -
  from gain_and_qs_events[OF run b] obtain ip iS iA tp ts eps where
    eps: "relevant_eps_effs_of sim_EM_pump sim_AC = Inr eps"
    and "b = mb_call_args sim_EM_pump sim_EM_Stokes sim_AC ip iS iA tp ts eps typ_select_out"
    by auto
  then show ?thesis
    by (simp add: mb_call_args_def typ_select_in_def select_out_def split: option.splits)
  qed
  have made: "\<exists>b. Call_moving_boundary b \<in> set tr" if "\<not> isl r"
  proof -
    from that obtain res where "r = Inr res" by (cases r) auto
    from gain_and_qs_returns[OF run[unfolded this]] obtain b tr1 tr2 tr3 qmb where
      "moving_boundary_step K b = (tr3, Some qmb)" "tr = tr1 @ tr2 @ tr3" by blast
    with moving_boundary_step_call[of K b tr3 "Some qmb"] show ?thesis by auto
  qed
  from calls made show ?thesis by blast
qed

theorem moving_boundary_selectors_witness:
  "\<exists>b. Call_moving_boundary b \<in> set (fst (gain_and_qs ex_kernel ex_EM ex_EM ex_AC 10000000
       (PyInt 0) (PyInt 0) (PyStr ''All'') (Some 500) None)) \<and>
     mb_eps_effs b = [4] \<and> mb_typ_select_in b = 1 \<and> mb_typ_select_out b = - 1"
proof -
  obtain tr r where run: "gain_and_qs ex_kernel ex_EM ex_EM ex_AC 10000000
       (PyInt 0) (PyInt 0) (PyStr ''All'') (Some 500) None = (tr, r)" by force
  with ex_run_fixed have "\<not> isl r" by auto
  with moving_boundary_selectors[OF run] obtain b where
    "Call_moving_boundary b \<in> set tr" "relevant_eps_effs_of ex_EM ex_AC = Inr (mb_eps_effs b)"
    "mb_typ_select_in b = 1"
    "mb_typ_select_out b = (if length (mb_eps_effs b) = 2 then 2 else - 1)"
    by auto
  moreover from this have e: "mb_eps_effs b = [4]"
    by (simp add: ex_eps)
  moreover from calculation have "mb_typ_select_out b = - 1"
    by (simp add: e)
  ultimately show ?thesis using run by auto
qed

subsection \<open>Runs that return\<close>

lemma documented_sel_fortran: "documented_sel v \<Longrightarrow> \<exists>i. fortran_ival v = Inr i"
  by (cases v) (auto simp: fortran_ival_def)

lemma not_interrupted: "x \<noteq> KeyboardInterrupt \<Longrightarrow> \<exists>y. x = Returned y"
  by (cases x) auto

lemma alpha_and_Q_total:
  assumes "fq \<noteq> Some 0"
    and "\<And>a. ac_alpha_int_v2 K a \<noteq> KeyboardInterrupt"
    and "\<And>a d. ac_alpha_int K a d \<noteq> KeyboardInterrupt"
  shows "\<exists>tr alpha Qf. alpha_and_Q K P A k fq = (tr, Inr (alpha, Qf))"
proof (cases fq)
  case None
  obtain y where y: "ac_alpha_int_v2 K (alpha_call_args A k) = Returned y"
    using not_interrupted[OF assms(2)] by blast
  obtain z where z: "ac_alpha_int K (alpha_call_args A k) Fortran_debug = Returned z"
    using not_interrupted[OF assms(3)] by blast
  show ?thesis
    by (simp add: None alpha_and_Q_def alpha_kernel_step_def Let_def y z)
next
  case (Some q)
  with assms(1) show ?thesis by (simp add: alpha_and_Q_def)
qed

lemma photoelastic_step_total:
  assumes "\<And>a. photoelastic_int_v2 K a \<noteq> KeyboardInterrupt"
    and "\<And>a. photoelastic_int K a \<noteq> KeyboardInterrupt"
  shows "\<exists>tr q. photoelastic_step K P a = (tr, Some q)"
proof -
  obtain y where y: "photoelastic_int_v2 K a = Returned y"
    using not_interrupted[OF assms(1)] by blast
  obtain z where z: "photoelastic_int K a = Returned z"
    using not_interrupted[OF assms(2)] by blast
  show ?thesis by (simp add: photoelastic_step_def pe_kernel_step_def y z)
qed

lemma moving_boundary_step_total:
  assumes "\<And>b. moving_boundary K b \<noteq> KeyboardInterrupt"
  shows "\<exists>tr q. moving_boundary_step K b = (tr, Some q)"
proof -
  obtain y where y: "moving_boundary K b = Returned y"
    using not_interrupted[OF assms(1)] by blast
  show ?thesis by (simp add: moving_boundary_step_def y)
qed

lemma normal_fact_of_total:
  assumes "num_modes S \<le> length (EM_mode_power S)" "num_modes P \<le> length (EM_mode_power P)"
    "num_modes A \<le> length (AC_mode_power A)" "num_modes A \<le> length alpha"
  shows "\<exists>nf. normal_fact_of P S A alpha = Inr nf"
  unfolding normal_fact_of_def
proof (rule fill_total)
  fix i assume "i \<in> set [0..<num_modes S]"
  then have i: "get1 (EM_mode_power S) i = Inr (EM_mode_power S ! i)"
    using assms(1) by (simp add: get1_def)
  have "\<exists>row. fill (\<lambda>j.
               case get1 (EM_mode_power P) j of
                 Inl e \<Rightarrow> Inl e
               | Inr P2 \<Rightarrow>
                   fill (\<lambda>k.
                      case get1 (AC_mode_power A) k of
                        Inl e \<Rightarrow> Inl e
                      | Inr P3 \<Rightarrow>
                          (case get1 alpha k of
                             Inl e \<Rightarrow> Inl e
                           | Inr al \<Rightarrow> Inr (EM_mode_power S ! i * P2 * P3 * complex_of_real al)))
                     [0..<num_modes A])
              [0..<num_modes P] = Inr row"
  proof (rule fill_total)
    fix j assume "j \<in> set [0..<num_modes P]"
    then have j: "get1 (EM_mode_power P) j = Inr (EM_mode_power P ! j)"
      using assms(2) by (simp add: get1_def)
    have "\<exists>col. fill (\<lambda>k.
                      case get1 (AC_mode_power A) k of
                        Inl e \<Rightarrow> Inl e
                      | Inr P3 \<Rightarrow>
                          (case get1 alpha k of
                             Inl e \<Rightarrow> Inl e
                           | Inr al \<Rightarrow> Inr (EM_mode_power S ! i * EM_mode_power P ! j * P3 * complex_of_real al)))
                     [0..<num_modes A] = Inr col"
    proof (rule fill_total)
      fix k assume "k \<in> set [0..<num_modes A]"
      then show "\<exists>y. (case get1 (AC_mode_power A) k of
                        Inl e \<Rightarrow> Inl e
                      | Inr P3 \<Rightarrow>
                          (case get1 alpha k of
                             Inl e \<Rightarrow> Inl e
                           | Inr al \<Rightarrow> Inr (EM_mode_power S ! i * EM_mode_power P ! j * P3 * complex_of_real al))) = Inr y"
        using assms(3,4) by (simp add: get1_def)
    qed
    then show "\<exists>y. (case get1 (EM_mode_power P) j of
                 Inl e \<Rightarrow> Inl e
               | Inr P2 \<Rightarrow>
                   fill (\<lambda>k.
                      case get1 (AC_mode_power A) k of
                        Inl e \<Rightarrow> Inl e
                      | Inr P3 \<Rightarrow>
                          (case get1 alpha k of
                             Inl e \<Rightarrow> Inl e
                           | Inr al \<Rightarrow> Inr (EM_mode_power S ! i * P2 * P3 * complex_of_real al)))
                     [0..<num_modes A]) = Inr y"
      by (simp add: j)
  qed
  then show "\<exists>y. (case get1 (EM_mode_power S) i of
          Inl e \<Rightarrow> Inl e
        | Inr P1 \<Rightarrow>
            fill (\<lambda>j.
               case get1 (EM_mode_power P) j of
                 Inl e \<Rightarrow> Inl e
               | Inr P2 \<Rightarrow>
                   fill (\<lambda>k.
                      case get1 (AC_mode_power A) k of
                        Inl e \<Rightarrow> Inl e
                      | Inr P3 \<Rightarrow>
                          (case get1 alpha k of
                             Inl e \<Rightarrow> Inl e
                           | Inr al \<Rightarrow> Inr (P1 * P2 * P3 * complex_of_real al)))
                     [0..<num_modes A])
              [0..<num_modes P]) = Inr y"
    by (simp add: i)
qed

lemma gain_and_qs_total:
  assumes ok: "run_inputs_ok K P S A vp vs va fq"
  shows "\<exists>tr res. gain_and_qs K P S A k vp vs va fq tso = (tr, Inr res)"
proof -
  from ok have d: "documented_sel vp" "documented_sel vs" "documented_sel va"
    by (simp_all add: run_inputs_ok_def)
  from documented_sel_fortran[OF d(1)] documented_sel_fortran[OF d(2)]
    documented_sel_fortran[OF d(3)]
  obtain ip iS iA where sel: "fortran_ival vp = Inr ip" "fortran_ival vs = Inr iS"
    "fortran_ival va = Inr iA"
    by blast
  from ok obtain neP neS where
    sh: "shape4 (sol1 P) = (3, 6, num_modes P, neP)" "shape4 (sol1 S) = (3, 6, num_modes S, neS)"
    and tbl: "\<And>el. el < n_msh_el A \<Longrightarrow>
        \<exists>v. el_convert_tbl A el = Some v \<and> 0 \<le> v \<and> v < int neP \<and> v < int neS"
    unfolding run_inputs_ok_def by blast
  from trim_fields_ok[OF sh tbl] obtain tp ts where t: "trim_fields P S A = Inr (tp, ts)"
    by (metis surj_pair)
  from ok have "\<And>t. t \<in> set [0..<nb_typ_el (structure_obj P)] \<Longrightarrow> t < length (n_list P)"
    unfolding run_inputs_ok_def by simp
  then have "\<exists>l. relevant_eps_effs_of P A = Inr l"
    unfolding relevant_eps_effs_of_def by (rule relevant_loop_total)
  then obtain eps where e: "relevant_eps_effs_of P A = Inr eps" by blast
  from ok have k: "fq \<noteq> Some 0"
    "\<And>a. ac_alpha_int_v2 K a \<noteq> KeyboardInterrupt"
    "\<And>a d. ac_alpha_int K a d \<noteq> KeyboardInterrupt"
    "\<And>a. photoelastic_int_v2 K a \<noteq> KeyboardInterrupt"
    "\<And>a. photoelastic_int K a \<noteq> KeyboardInterrupt"
    "\<And>b. moving_boundary K b \<noteq> KeyboardInterrupt"
    unfolding run_inputs_ok_def by blast+
  from alpha_and_Q_total[OF k(1,2,3)] obtain tr1 alpha Qf where
    a: "alpha_and_Q K P A k fq = (tr1, Inr (alpha, Qf))" by blast
  from photoelastic_step_total[OF k(4,5)] obtain tr2 qpe where
    p: "photoelastic_step K P (pe_call_args P S A k ip iS iA tp ts eps) = (tr2, Some qpe)" by blast
  from moving_boundary_step_total[OF k(6)] obtain tr3 qmb where
    m: "moving_boundary_step K (mb_call_args P S A ip iS iA tp ts eps tso) = (tr3, Some qmb)" by blast
  from alpha_and_Q_length[OF a] have "num_modes A \<le> length alpha" by simp
  with ok normal_fact_of_total[of S P A alpha] obtain nf where
    nf: "normal_fact_of P S A alpha = Inr nf"
    unfolding run_inputs_ok_def by blast
  show ?thesis
    by (simp add: gain_and_qs_def sel t e a p m assemble_def nf)
qed

subsection \<open>An interrupt during a Fortran routine\<close>

lemma alpha_and_Q_interrupted:
  assumes "alpha_and_Q K P A k fq = (tr, r)" and "ev \<in> set tr" and "interrupted_call K ev"
  shows "r = Inl UnboundLocalError \<and> Interrupted ''ac_alpha_int'' \<in> set tr \<and>
         (\<forall>ev'\<in>set tr. \<not> is_overlap_call ev')"
  using assms unfolding alpha_and_Q_def alpha_kernel_step_def not_sure_warning_def Let_def
  by (auto split: option.splits prod.splits outcome.splits if_splits)

lemma photoelastic_step_interrupted:
  assumes "photoelastic_step K P a = (tr, q)" and "ev \<in> set tr" and "interrupted_call K ev"
  shows "q = None \<and> Interrupted ''photoelastic_int'' \<in> set tr"
  using assms unfolding photoelastic_step_def pe_kernel_step_def not_sure_warning_def
  by (auto split: outcome.splits if_splits)

lemma moving_boundary_step_interrupted:
  assumes "moving_boundary_step K b = (tr, q)" and "ev \<in> set tr" and "interrupted_call K ev"
  shows "q = None \<and> Interrupted ''moving_boundary'' \<in> set tr"
  using assms unfolding moving_boundary_step_def
  by (auto split: outcome.splits)

lemma assemble_unbound:
  "Q_PE = None \<or> Q_MB = None \<Longrightarrow> assemble P S A alpha Qf Q_PE Q_MB = Inl UnboundLocalError"
  by (auto simp: assemble_def split: option.splits)

text \<open>
  C6 (as amended). When a Fortran routine called by \<^verbatim>\<open>gain_and_qs\<close> is interrupted, the
  interrupt is caught and reported at that call, and the statements after it are run:
  after an interrupted photoelastic routine the moving-boundary routine is still called.
  But \<^verbatim>\<open>alpha\<close>, \<^verbatim>\<open>Q_PE\<close> or \<^verbatim>\<open>Q_MB\<close> is then unbound, not at a default value, and
  \<^verbatim>\<open>gain_and_qs\<close> returns no result: it raises \<^verbatim>\<open>UnboundLocalError\<close> where the variable
  is first read, which for \<^verbatim>\<open>alpha\<close> is before any overlap routine is called.
\<close>

theorem interrupt_leaves_unbound:
  assumes run: "gain_and_qs K sim_EM_pump sim_EM_Stokes sim_AC k_AC EM_ival_pump EM_ival_Stokes
      AC_ival fixed_Q typ_select_out = (tr, r)"
    and int: "ev \<in> set tr" "interrupted_call K ev"
  shows "r = Inl UnboundLocalError \<and>
    (is_alpha_call ev \<longrightarrow>
       Interrupted ''ac_alpha_int'' \<in> set tr \<and> (\<forall>ev'\<in>set tr. \<not> is_overlap_call ev')) \<and>
    ((\<exists>a. ev = Call_photoelastic_int_v2 a \<or> ev = Call_photoelastic_int a) \<longrightarrow>
       Interrupted ''photoelastic_int'' \<in> set tr \<and> (\<exists>b. Call_moving_boundary b \<in> set tr)) \<and>
    ((\<exists>b. ev = Call_moving_boundary b) \<longrightarrow> Interrupted ''moving_boundary'' \<in> set tr)"
  using run
proof (cases rule: gain_and_qs_elim)
  case early
  with int show ?thesis by simp
next
  case (alpha_raised e)
  from alpha_and_Q_interrupted[OF alpha_raised(1) int] alpha_raised(2)
    alpha_and_Q_events[OF alpha_raised(1) int(1)]
  show ?thesis by auto
next
  case (full ip iS iA tp ts eps tr1 alpha Qf tr2 Q_PE tr3 Q_MB)
  from moving_boundary_step_call[OF full(8)] full(9)
  have mbc: "\<exists>b. Call_moving_boundary b \<in> set tr" by auto
  from int(1) full(9) consider "ev \<in> set tr1" | "ev \<in> set tr2" | "ev \<in> set tr3" by auto
  then show ?thesis
  proof cases
    case 1
    from alpha_and_Q_interrupted[OF full(6) 1 int(2)] show ?thesis by simp
  next
    case 2
    from photoelastic_step_interrupted[OF full(7) 2 int(2)]
    have "Q_PE = None" "Interrupted ''photoelastic_int'' \<in> set tr" using full(9) by auto
    moreover from photoelastic_step_events[OF full(7) 2] int(2)
    have "\<not> is_alpha_call ev" "\<not> (\<exists>b. ev = Call_moving_boundary b)" by auto
    ultimately show ?thesis using full(10) mbc by (simp add: assemble_unbound)
  next
    case 3
    from moving_boundary_step_interrupted[OF full(8) 3 int(2)]
    have "Q_MB = None" "Interrupted ''moving_boundary'' \<in> set tr" using full(9) by auto
    moreover from moving_boundary_step_events[OF full(8) 3] int(2)
    have "\<not> is_alpha_call ev" "\<not> (\<exists>a. ev = Call_photoelastic_int_v2 a \<or> ev = Call_photoelastic_int a)"
      by auto
    ultimately show ?thesis using full(10) by (simp add: assemble_unbound)
  qed
qed

theorem interrupt_leaves_unbound_witness:
  "\<exists>a b. Call_photoelastic_int_v2 a \<in> set (fst (gain_and_qs ex_kernel_interrupted ex_EM ex_EM ex_AC
         10000000 (PyInt 0) (PyInt 0) (PyStr ''All'') (Some 500) None)) \<and>
     interrupted_call ex_kernel_interrupted (Call_photoelastic_int_v2 a) \<and>
     Interrupted ''photoelastic_int'' \<in> set (fst (gain_and_qs ex_kernel_interrupted ex_EM ex_EM ex_AC
         10000000 (PyInt 0) (PyInt 0) (PyStr ''All'') (Some 500) None)) \<and>
     Call_moving_boundary b \<in> set (fst (gain_and_qs ex_kernel_interrupted ex_EM ex_EM ex_AC
         10000000 (PyInt 0) (PyInt 0) (PyStr ''All'') (Some 500) None)) \<and>
     snd (gain_and_qs ex_kernel_interrupted ex_EM ex_EM ex_AC
         10000000 (PyInt 0) (PyInt 0) (PyStr ''All'') (Some 500) None) = Inl UnboundLocalError"
proof -
  obtain tr r where run: "gain_and_qs ex_kernel_interrupted ex_EM ex_EM ex_AC
         10000000 (PyInt 0) (PyInt 0) (PyStr ''All'') (Some 500) None = (tr, r)" by force
  with ex_run_interrupted obtain a where a: "Call_photoelastic_int_v2 a \<in> set tr" by auto
  have i: "interrupted_call ex_kernel_interrupted (Call_photoelastic_int_v2 a)"
    by (simp add: ex_kernel_interrupted_def)
  from interrupt_leaves_unbound[OF run a i]
  have "r = Inl UnboundLocalError" "Interrupted ''photoelastic_int'' \<in> set tr"
    "\<exists>b. Call_moving_boundary b \<in> set tr" by blast+
  with a i run show ?thesis by auto
qed

text \<open>
  C6 as stated fails: with an interrupt during the photoelastic routine the run of the
  small waveguide reports the interrupt and then raises; it returns no gain tensors.
\<close>

theorem interrupt_returns_no_result:
  "Interrupted ''photoelastic_int'' \<in> set (fst (gain_and_qs ex_kernel_interrupted ex_EM ex_EM ex_AC
         10000000 (PyInt 0) (PyInt 0) (PyStr ''All'') (Some 500) None)) \<and>
   snd (gain_and_qs ex_kernel_interrupted ex_EM ex_EM ex_AC
         10000000 (PyInt 0) (PyInt 0) (PyStr ''All'') (Some 500) None) = Inl UnboundLocalError"
  using ex_run_interrupted by auto

subsection \<open>A zero normalisation factor\<close>

lemma ex_inputs_ok:
  "run_inputs_ok ex_kernel ex_EM ex_EM_zero ex_AC (PyInt 0) (PyInt 0) (PyStr ''All'') (Some 500)"
proof -
  have "\<exists>neP neS.
        shape4 (sol1 ex_EM) = (3, 6, num_modes ex_EM, neP) \<and>
        shape4 (sol1 ex_EM_zero) = (3, 6, num_modes ex_EM_zero, neS) \<and>
        (\<forall>el<n_msh_el ex_AC.
           \<exists>v. el_convert_tbl ex_AC el = Some v \<and> 0 \<le> v \<and> v < int neP \<and> v < int neS)"
    by (rule exI[of _ 2], rule exI[of _ 2]) (simp add: ex_EM_def ex_EM_zero_def ex_AC_def)
  then show ?thesis
    unfolding run_inputs_ok_def
    by (simp add: ex_EM_def ex_EM_zero_def ex_AC_def ex_struct_def ex_kernel_def)
qed

text \<open>
  C7 (as amended). \<^verbatim>\<open>gain_and_qs\<close> has no check for a zero mode power or a zero
  \<^verbatim>\<open>alpha\<close> and reports no error for one: on inputs with which nothing else raises it
  returns, whatever the powers are, and when it returns, every entry \<open>[i, j, k]\<close> of the
  three gain tensors whose Stokes power, pump power, acoustic power or \<^verbatim>\<open>alpha\<close> is zero
  is non-finite (\<^verbatim>\<open>inf\<close> or \<^verbatim>\<open>nan\<close>): the division is performed all the same.
\<close>

theorem zero_factor_gives_nonfinite:
  assumes idx: "i < num_modes sim_EM_Stokes" "j < num_modes sim_EM_pump" "k < num_modes sim_AC"
  shows "(run_inputs_ok K sim_EM_pump sim_EM_Stokes sim_AC EM_ival_pump EM_ival_Stokes AC_ival
            fixed_Q \<longrightarrow>
          (\<exists>tr res. gain_and_qs K sim_EM_pump sim_EM_Stokes sim_AC k_AC EM_ival_pump
              EM_ival_Stokes AC_ival fixed_Q typ_select_out = (tr, Inr res))) \<and>
         (\<forall>tr res. gain_and_qs K sim_EM_pump sim_EM_Stokes sim_AC k_AC EM_ival_pump
              EM_ival_Stokes AC_ival fixed_Q typ_select_out = (tr, Inr res) \<longrightarrow>
            EM_mode_power sim_EM_Stokes ! i = 0 \<or> EM_mode_power sim_EM_pump ! j = 0 \<or>
            AC_mode_power sim_AC ! k = 0 \<or> alpha_out res ! k = 0 \<longrightarrow>
            SBS_gain res ! i ! j ! k = NonFinite \<and> SBS_gain_PE res ! i ! j ! k = NonFinite \<and>
            SBS_gain_MB res ! i ! j ! k = NonFinite)"
proof (intro conjI allI impI)
  assume "run_inputs_ok K sim_EM_pump sim_EM_Stokes sim_AC EM_ival_pump EM_ival_Stokes AC_ival
            fixed_Q"
  then show "\<exists>tr res. gain_and_qs K sim_EM_pump sim_EM_Stokes sim_AC k_AC EM_ival_pump
              EM_ival_Stokes AC_ival fixed_Q typ_select_out = (tr, Inr res)"
    by (rule gain_and_qs_total)
next
  fix tr res
  assume run: "gain_and_qs K sim_EM_pump sim_EM_Stokes sim_AC k_AC EM_ival_pump
              EM_ival_Stokes AC_ival fixed_Q typ_select_out = (tr, Inr res)"
    and zero: "EM_mode_power sim_EM_Stokes ! i = 0 \<or> EM_mode_power sim_EM_pump ! j = 0 \<or>
            AC_mode_power sim_AC ! k = 0 \<or> alpha_out res ! k = 0"
  from gain_and_qs_returns[OF run] obtain alpha Qf qpe qmb nf where
    nf: "normal_fact_of sim_EM_pump sim_EM_Stokes sim_AC alpha = Inr nf"
    and res: "res = \<lparr>SBS_gain = normalise (gain_of sim_EM_pump sim_AC (\<lambda>i j k. qpe i j k + qmb i j k)) nf,
              SBS_gain_PE = normalise (gain_of sim_EM_pump sim_AC qpe) nf,
              SBS_gain_MB = normalise (gain_of sim_EM_pump sim_AC qmb) nf,
              alpha_out = alpha, Q_factors = Qf\<rparr>"
    by blast
  note n = normal_fact_of_Inr[OF nf]
  have l: "i < length nf" "j < length (nf ! i)" "k < length (nf ! i ! j)"
    using n(1) n(2)[OF idx(1)] n(3)[OF idx(1,2)] idx by simp_all
  from zero have z: "nf ! i ! j ! k = 0"
    by (auto simp: n(4)[OF idx] res)
  show "SBS_gain res ! i ! j ! k = NonFinite" "SBS_gain_PE res ! i ! j ! k = NonFinite"
    "SBS_gain_MB res ! i ! j ! k = NonFinite"
    by (simp_all add: res normalise_nth[OF l] np_divide_def z)
qed

theorem zero_factor_gives_nonfinite_witness:
  "\<exists>tr res. gain_and_qs ex_kernel ex_EM ex_EM_zero ex_AC 10000000 (PyInt 0) (PyInt 0)
       (PyStr ''All'') (Some 500) None = (tr, Inr res) \<and>
     EM_mode_power ex_EM_zero ! 0 = 0 \<and> SBS_gain res ! 0 ! 0 ! 2 = NonFinite \<and>
     SBS_gain_PE res ! 0 ! 0 ! 2 = NonFinite \<and> SBS_gain_MB res ! 0 ! 0 ! 2 = NonFinite"
proof -
  have z: "EM_mode_power ex_EM_zero ! 0 = 0" by (simp add: ex_EM_zero_def)
  have i: "0 < num_modes ex_EM_zero" "0 < num_modes ex_EM" "2 < num_modes ex_AC"
    by (simp_all add: ex_EM_zero_def ex_EM_def ex_AC_def)
  note t = zero_factor_gives_nonfinite[OF i, of ex_kernel "PyInt 0" "PyInt 0" "PyStr ''All''"
      "Some 500" 10000000 None]
  from t ex_inputs_ok obtain tr res where
    run: "gain_and_qs ex_kernel ex_EM ex_EM_zero ex_AC 10000000 (PyInt 0) (PyInt 0)
       (PyStr ''All'') (Some 500) None = (tr, Inr res)" by blast
  with t z have "SBS_gain res ! 0 ! 0 ! 2 = NonFinite \<and> SBS_gain_PE res ! 0 ! 0 ! 2 = NonFinite \<and>
         SBS_gain_MB res ! 0 ! 0 ! 2 = NonFinite" by blast
  with run z show ?thesis by blast
qed

text \<open>
  C7 as stated fails: with a Stokes mode of power zero the run of the small waveguide
  reports no error; it returns gain tensors whose entries are all non-finite.
\<close>

theorem zero_power_not_reported:
  "\<not> isl (snd (gain_and_qs ex_kernel ex_EM ex_EM_zero ex_AC 10000000 (PyInt 0) (PyInt 0)
       (PyStr ''All'') (Some 500) None)) \<and>
   SBS_gain (projr (snd (gain_and_qs ex_kernel ex_EM ex_EM_zero ex_AC 10000000 (PyInt 0) (PyInt 0)
       (PyStr ''All'') (Some 500) None))) = [[[NonFinite, NonFinite, NonFinite]]]"
  by (simp add: ex_run_zero)

subsection \<open>The symmetry scores and labels\<close>

lemma sum_list_upt: "sum_list (map f [0..<n]) = (\<Sum>i<n. f i)"
  by (simp add: interv_sum_list_conv_sum_set_nat atLeast_upt)

lemma sum_list_concat_map: "sum_list (concat xss) = sum_list (map sum_list xss)"
  by (induction xss) simp_all

lemma sum_list_map_filter:
  "sum_list (map cmod (List.map_filter f xs)) =
   sum_list (map (\<lambda>p. case f p of None \<Rightarrow> 0 | Some z \<Rightarrow> cmod z) xs)"
  by (induction xs) (simp_all split: option.splits)

lemma np_sum_abs_sum:
  "np_sum_abs nx ny g = (\<Sum>ix<nx. \<Sum>iy<ny. case g ix iy of None \<Rightarrow> 0 | Some z \<Rightarrow> cmod z)"
proof -
  have "np_sum_abs nx ny g =
      sum_list (map (\<lambda>ix. sum_list (map (\<lambda>iy. case g ix iy of None \<Rightarrow> 0 | Some z \<Rightarrow> cmod z) [0..<ny])) [0..<nx])"
    by (simp add: np_sum_abs_def compressed_def sum_list_map_filter grid_points_def map_concat
        sum_list_concat_map comp_def)
  then show ?thesis by (simp add: sum_list_upt)
qed

lemma np_sum_abs_nonneg: "0 \<le> np_sum_abs nx ny g"
  by (simp add: np_sum_abs_sum sum_nonneg split: option.splits)

lemma diff_term_plain:
  "(case grid_diff a b ix iy of None \<Rightarrow> 0 | Some z \<Rightarrow> cmod z) =
   (case a ix iy of None \<Rightarrow> 0 | Some z \<Rightarrow> cmod (z - b ix iy))"
  by (simp add: grid_diff_def split: option.splits)

lemma two_sums:
  "np_sum_abs nx ny (grid_diff a b) + np_sum_abs nx ny (grid_diff c d) =
   (\<Sum>ix<nx. \<Sum>iy<ny. (case a ix iy of None \<Rightarrow> 0 | Some z \<Rightarrow> cmod (z - b ix iy))
                        + (case c ix iy of None \<Rightarrow> 0 | Some z \<Rightarrow> cmod (z - d ix iy)))"
  by (simp add: np_sum_abs_sum diff_term_plain sum.distrib)

lemma mirror_terms:
  "(case a ix iy of None \<Rightarrow> 0 | Some z \<Rightarrow> cmod (z - Ex_ymirror nx ny a ix iy)) =
     pair_term (a ix iy) (a ix (ny - 1 - iy)) 1"
  "(case a ix iy of None \<Rightarrow> 0 | Some z \<Rightarrow> cmod (z - Ey_ymirror nx ny a ix iy)) =
     pair_term (a ix iy) (a ix (ny - 1 - iy)) (- 1)"
  "(case a ix iy of None \<Rightarrow> 0 | Some z \<Rightarrow> cmod (z - Ex_xmirror nx ny a ix iy)) =
     pair_term (a ix iy) (a (nx - 1 - ix) iy) (- 1)"
  "(case a ix iy of None \<Rightarrow> 0 | Some z \<Rightarrow> cmod (z - Ey_xmirror nx ny a ix iy)) =
     pair_term (a ix iy) (a (nx - 1 - ix) iy) 1"
  "(case a ix iy of None \<Rightarrow> 0 | Some z \<Rightarrow> cmod (z - E_rotated nx ny a ix iy)) =
     pair_term (a ix iy) (a (nx - 1 - ix) (ny - 1 - iy)) (- 1)"
  by (simp_all add: Ex_ymirror_def Ey_ymirror_def Ex_xmirror_def Ey_xmirror_def E_rotated_def
      pair_term_def stored_def split: option.splits)

lemma sigma_y_spec: "sigma_y nx ny m_Ex m_Ey = spec_sigma_y nx ny m_Ex m_Ey"
  unfolding sigma_y_def spec_sigma_y_def two_sums mirror_terms ..

lemma sigma_x_spec: "sigma_x nx ny m_Ex m_Ey = spec_sigma_x nx ny m_Ex m_Ey"
  unfolding sigma_x_def spec_sigma_x_def two_sums mirror_terms ..

lemma C_2_spec: "C_2 nx ny m_Ex m_Ey = spec_C_2 nx ny m_Ex m_Ey"
  unfolding C_2_def spec_C_2_def two_sums mirror_terms ..

lemma scores_nonneg:
  "0 \<le> sigma_y nx ny m_Ex m_Ey" "0 \<le> sigma_x nx ny m_Ex m_Ey" "0 \<le> C_2 nx ny m_Ex m_Ey"
  by (simp_all add: sigma_y_def sigma_x_def C_2_def np_sum_abs_nonneg)

lemma spec_scores_nonneg:
  "0 \<le> spec_sigma_y nx ny m_Ex m_Ey" "0 \<le> spec_sigma_x nx ny m_Ex m_Ey"
  "0 \<le> spec_C_2 nx ny m_Ex m_Ey"
  using scores_nonneg[of nx ny m_Ex m_Ey] unfolding sigma_y_spec sigma_x_spec C_2_spec .

lemma sym_print_nonneg: "0 \<le> score \<Longrightarrow> sym_print score limit = (if score \<le> limit then 1 else - 1)"
  by (simp add: sym_print_def)

lemma set_grid_points: "set (grid_points nx ny) = {..<nx} \<times> {..<ny}"
  by (auto simp: grid_points_def)

lemma set_compressed:
  "set (compressed nx ny g) = {z. \<exists>ix<nx. \<exists>iy<ny. g ix iy = Some z}"
proof -
  have "set (compressed nx ny g) = {z. \<exists>p\<in>{..<nx} \<times> {..<ny}. (case p of (ix, iy) \<Rightarrow> g ix iy) = Some z}"
    unfolding compressed_def List.map_filter_def set_map set_filter set_grid_points
    apply (auto simp: image_iff)
    subgoal by blast
    subgoal for x xa y
      apply (rule exI[of _ xa])
      apply simp
      apply (rule exI[of _ y])
      apply simp
      done
    done
  also have "\<dots> = {z. \<exists>ix<nx. \<exists>iy<ny. g ix iy = Some z}"
    by auto
  finally show ?thesis .
qed

lemma np_max_Inr:
  assumes "np_max xs = Inr m"
  shows "xs \<noteq> [] \<and> (\<forall>t. m < t \<longleftrightarrow> (\<forall>v\<in>set xs. v < t))"
proof (cases xs)
  case Nil
  with assms show ?thesis by simp
next
  case (Cons x ys)
  with assms have "m = Max (set xs)" using Max.set_eq_fold[of x ys] by simp
  with Cons show ?thesis by simp
qed

lemma zero_negligible_Inr:
  assumes "zero_negligible nx ny thr g = Inr F"
  shows "F = scored_component nx ny thr g"
proof -
  from assms obtain m where m: "np_max (map cmod (compressed nx ny g)) = Inr m"
    and F: "F = (if m < thr then (\<lambda>ix iy. Some 0) else g)"
    by (auto simp: zero_negligible_def split: sum.splits)
  from np_max_Inr[OF m] have "m < thr \<longleftrightarrow> (\<forall>z\<in>set (compressed nx ny g). cmod z < thr)"
    by simp
  also have "\<dots> \<longleftrightarrow> (\<forall>ix\<in>{..<nx}. \<forall>iy\<in>{..<ny}. negligible_at thr (g ix iy))"
    by (auto simp: set_compressed negligible_at_def split: option.splits)
  finally show ?thesis unfolding F scored_component_def by simp
qed

lemma symmetries_mode_Inr:
  assumes "symmetries_mode nx ny thr m = Inr lab"
  shows "zero_negligible nx ny thr (fst m) = Inr (scored_component nx ny thr (fst m)) \<and>
      zero_negligible nx ny thr (snd m) = Inr (scored_component nx ny thr (snd m)) \<and>
      lab = [sym_print (C_2 nx ny (scored_component nx ny thr (fst m)) (scored_component nx ny thr (snd m))) 0.2,
             sym_print (sigma_y nx ny (scored_component nx ny thr (fst m)) (scored_component nx ny thr (snd m))) 0.1,
             sym_print (sigma_x nx ny (scored_component nx ny thr (fst m)) (scored_component nx ny thr (snd m))) 0.1]"
proof -
  from assms obtain m_Ex m_Ey where
    z: "zero_negligible nx ny thr (fst m) = Inr m_Ex" "zero_negligible nx ny thr (snd m) = Inr m_Ey"
    and lab: "lab = [sym_print (C_2 nx ny m_Ex m_Ey) 0.2, sym_print (sigma_y nx ny m_Ex m_Ey) 0.1,
                    sym_print (sigma_x nx ny m_Ex m_Ey) 0.1]"
    by (auto simp: symmetries_mode_def split: sum.splits)
  note e = zero_negligible_Inr[OF z(1)] zero_negligible_Inr[OF z(2)]
  from z lab show ?thesis unfolding e by blast
qed

text \<open>
  C4 (as amended). For every mode processed by \<^verbatim>\<open>symmetries\<close>, with \<open>Fx\<close> and \<open>Fy\<close>
  the two components that are scored (the interpolated ones, a negligible one replaced by
  zeros), lines 364-367 leave \<open>Fx\<close> and \<open>Fy\<close> in \<^verbatim>\<open>m_Ex\<close> and \<^verbatim>\<open>m_Ey\<close>, and each of
  the three scores of lines 393-401 is the sum over the grid points inside the mesh of
  the absolute differences of both components against their transformed counterparts,
  divided by \<open>n_pts_x * n_pts_y\<close> (\<open>spec_C_2\<close>, \<open>spec_sigma_y\<close>, \<open>spec_sigma_x\<close>; a
  point outside the mesh has no term, and the term of a point whose reflected point is
  outside the mesh is the magnitude of the component at the point). The entry of the mode
  in the returned list is \<open>[C2 label, y-mirror label, x-mirror label]\<close>, where a label
  is \<open>1\<close> when the score is less than or equal to the threshold (0.2 for the rotation,
  0.1 for each mirror), and \<open>- 1\<close> when it is above. The scores are exact reals.
\<close>

theorem symmetry_labels:
  assumes run: "symmetries interp n_eig_values n_pts_x n_pts_y negligible_threshold = Inr sym_list"
    and ival: "ival < n_eig_values"
  shows "length sym_list = n_eig_values \<and>
    (let Fx = scored_component n_pts_x n_pts_y negligible_threshold (fst (interp ival));
         Fy = scored_component n_pts_x n_pts_y negligible_threshold (snd (interp ival))
     in zero_negligible n_pts_x n_pts_y negligible_threshold (fst (interp ival)) = Inr Fx \<and>
        zero_negligible n_pts_x n_pts_y negligible_threshold (snd (interp ival)) = Inr Fy \<and>
        C_2 n_pts_x n_pts_y Fx Fy = spec_C_2 n_pts_x n_pts_y Fx Fy \<and>
        sigma_y n_pts_x n_pts_y Fx Fy = spec_sigma_y n_pts_x n_pts_y Fx Fy \<and>
        sigma_x n_pts_x n_pts_y Fx Fy = spec_sigma_x n_pts_x n_pts_y Fx Fy \<and>
        sym_list ! ival =
          [if spec_C_2 n_pts_x n_pts_y Fx Fy \<le> 0.2 then 1 else - 1,
           if spec_sigma_y n_pts_x n_pts_y Fx Fy \<le> 0.1 then 1 else - 1,
           if spec_sigma_x n_pts_x n_pts_y Fx Fy \<le> 0.1 then 1 else - 1])"
proof -
  define Fx where "Fx = scored_component n_pts_x n_pts_y negligible_threshold (fst (interp ival))"
  define Fy where "Fy = scored_component n_pts_x n_pts_y negligible_threshold (snd (interp ival))"
  note f = fill_upt[OF run[unfolded symmetries_def]]
  note m = symmetries_mode_Inr[OF f(2)[OF ival], folded Fx_def Fy_def]
  have lab: "sym_list ! ival =
          [if spec_C_2 n_pts_x n_pts_y Fx Fy \<le> 0.2 then 1 else - 1,
           if spec_sigma_y n_pts_x n_pts_y Fx Fy \<le> 0.1 then 1 else - 1,
           if spec_sigma_x n_pts_x n_pts_y Fx Fy \<le> 0.1 then 1 else - 1]"
    using m unfolding sigma_y_spec sigma_x_spec C_2_spec
    by (simp only: sym_print_nonneg[OF spec_scores_nonneg(1)]
        sym_print_nonneg[OF spec_scores_nonneg(2)] sym_print_nonneg[OF spec_scores_nonneg(3)])
  from m have z: "zero_negligible n_pts_x n_pts_y negligible_threshold (fst (interp ival)) = Inr Fx"
    "zero_negligible n_pts_x n_pts_y negligible_threshold (snd (interp ival)) = Inr Fy"
    by blast+
  show ?thesis
    unfolding Let_def Fx_def[symmetric] Fy_def[symmetric]
    using f(1) z lab C_2_spec[of n_pts_x n_pts_y Fx Fy] sigma_y_spec[of n_pts_x n_pts_y Fx Fy]
      sigma_x_spec[of n_pts_x n_pts_y Fx Fy]
    by blast
qed

subsection \<open>The symmetry labels of three modes\<close>

lemma grid_1_4: "grid_points 1 4 = [(0, 0), (0, 1), (0, 2), (0, 3)]"
  by (simp add: grid_points_def upt_rec)

lemma grid_2_2: "grid_points 2 2 = [(0, 0), (0, 1), (1, 0), (1, 1)]"
  by (simp add: grid_points_def upt_rec)

lemma ex_compressed:
  "compressed 1 4 ex_Ex = [1 / 10, 1 / 10]"
  "compressed 1 4 ex_Ey = [1, - 1]"
  unfolding compressed_def grid_1_4
  by (simp_all add: ex_Ex_def ex_Ey_def)

lemma ex_zero_negligible:
  "zero_negligible 1 4 (1 / 100000) ex_Ex = Inr ex_Ex"
  "zero_negligible 1 4 (1 / 100000) ex_Ey = Inr ex_Ey"
  unfolding zero_negligible_def ex_compressed by simp_all

lemma sum4: "(\<Sum>i<4. f i) = f 0 + f 1 + f 2 + f (3::nat)"
  by (simp add: numeral_eq_Suc)

lemma sum2: "(\<Sum>i<2. f i) = f 0 + f (1::nat)"
  by (simp add: numeral_eq_Suc)

lemma sum1: "(\<Sum>i<1. f i) = f (0::nat)"
  by simp

lemma ex_scores:
  "spec_C_2 1 4 ex_Ex ex_Ey = 1 / 10"
  "spec_sigma_y 1 4 ex_Ex ex_Ey = 0"
  "spec_sigma_x 1 4 ex_Ex ex_Ey = 1 / 10"
  by (simp_all add: spec_C_2_def spec_sigma_y_def spec_sigma_x_def sum4 pair_term_def ex_Ex_def ex_Ey_def)

lemma ex_symmetries_mode: "symmetries_mode 1 4 (1 / 100000) (ex_interp ival) = Inr [1, 1, 1]"
  by (simp add: symmetries_mode_def ex_interp_def ex_zero_negligible
      sym_print_def C_2_spec sigma_y_spec sigma_x_spec ex_scores del: One_nat_def)

lemma ex_symmetries: "symmetries ex_interp 1 1 4 (1 / 100000) = Inr [[1, 1, 1]]"
  unfolding symmetries_def ex_symmetries_mode by simp

lemma ex2_compressed:
  "compressed 2 2 ex_Ex2 = [1, 1, 0]"
  "compressed 2 2 ex_Ey2 = [1 / 2, - (1 / 2), 0]"
  "compressed 2 2 ex_Ex_out = [1, 1, 1]"
  "compressed 2 2 ex_Ey_out = [0, 0, 0]"
  unfolding compressed_def grid_2_2
  by (simp_all add: ex_Ex2_def ex_Ey2_def ex_Ex_out_def ex_Ey_out_def)

lemma ex2_zero_negligible:
  "zero_negligible 2 2 (1 / 100000) ex_Ex2 = Inr ex_Ex2"
  "zero_negligible 2 2 (1 / 100000) ex_Ey2 = Inr ex_Ey2"
  "zero_negligible 2 2 (1 / 100000) ex_Ex_out = Inr ex_Ex_out"
  "zero_negligible 2 2 (1 / 100000) ex_Ey_out = Inr (\<lambda>ix iy. Some 0)"
  unfolding zero_negligible_def ex2_compressed by simp_all

lemma ex2_scores:
  "spec_C_2 2 2 ex_Ex2 ex_Ey2 = 9 / 8"
  "spec_sigma_y 2 2 ex_Ex2 ex_Ey2 = 0"
  "spec_sigma_x 2 2 ex_Ex2 ex_Ey2 = 9 / 8"
  by (simp_all add: spec_C_2_def spec_sigma_y_def spec_sigma_x_def sum2 pair_term_def ex_Ex2_def ex_Ey2_def)


lemma ex2_symmetries_mode: "symmetries_mode 2 2 (1 / 100000) (ex_interp2 ival) = Inr [- 1, 1, - 1]"
  by (simp add: symmetries_mode_def ex_interp2_def ex2_zero_negligible
      sym_print_def C_2_spec sigma_y_spec sigma_x_spec ex2_scores del: One_nat_def)

lemma ex2_symmetries: "symmetries ex_interp2 1 2 2 (1 / 100000) = Inr [[- 1, 1, - 1]]"
  unfolding symmetries_def ex2_symmetries_mode by simp



lemma ex_scored:
  "scored_component 2 2 (1 / 100000) ex_Ex2 = ex_Ex2"
  "scored_component 2 2 (1 / 100000) ex_Ey2 = ex_Ey2"
  using zero_negligible_Inr[OF ex2_zero_negligible(1)] zero_negligible_Inr[OF ex2_zero_negligible(2)]
  by simp_all

theorem symmetry_labels_witness:
  "symmetries ex_interp2 1 2 2 (1 / 100000) = Inr [[- 1, 1, - 1]] \<and>
   (0::nat) < 1 \<and>
   ex_interp2 0 = (ex_Ex2, ex_Ey2) \<and>
   ex_Ex2 1 1 = None \<and>
   scored_component 2 2 (1 / 100000) ex_Ex2 = ex_Ex2 \<and>
   scored_component 2 2 (1 / 100000) ex_Ey2 = ex_Ey2 \<and>
   spec_C_2 2 2 ex_Ex2 ex_Ey2 = 9 / 8 \<and>
   spec_sigma_y 2 2 ex_Ex2 ex_Ey2 = 0 \<and>
   spec_sigma_x 2 2 ex_Ex2 ex_Ey2 = 9 / 8 \<and>
   length [[- 1, 1, - 1 :: int]] = 1 \<and>
   (let Fx = scored_component 2 2 (1 / 100000) (fst (ex_interp2 0));
        Fy = scored_component 2 2 (1 / 100000) (snd (ex_interp2 0))
    in zero_negligible 2 2 (1 / 100000) (fst (ex_interp2 0)) = Inr Fx \<and>
       zero_negligible 2 2 (1 / 100000) (snd (ex_interp2 0)) = Inr Fy \<and>
       C_2 2 2 Fx Fy = spec_C_2 2 2 Fx Fy \<and>
       sigma_y 2 2 Fx Fy = spec_sigma_y 2 2 Fx Fy \<and>
       sigma_x 2 2 Fx Fy = spec_sigma_x 2 2 Fx Fy \<and>
       [[- 1, 1, - 1]] ! 0 =
         [if spec_C_2 2 2 Fx Fy \<le> 0.2 then 1 else - 1,
          if spec_sigma_y 2 2 Fx Fy \<le> 0.1 then 1 else - 1,
          if spec_sigma_x 2 2 Fx Fy \<le> 0.1 then 1 else - (1::int)])"
proof -
  have z: "(0::nat) < 1" by simp
  have i: "ex_interp2 0 = (ex_Ex2, ex_Ey2)" by (simp add: ex_interp2_def)
  have n: "ex_Ex2 1 1 = None" by (simp add: ex_Ex2_def)
  note c = symmetry_labels[OF ex2_symmetries z]
  show ?thesis
    apply (rule conjI, rule ex2_symmetries)
    apply (rule conjI, rule z)
    apply (rule conjI, rule i)
    apply (rule conjI, rule n)
    apply (rule conjI, rule ex_scored(1))
    apply (rule conjI, rule ex_scored(2))
    apply (rule conjI, rule ex2_scores(1))
    apply (rule conjI, rule ex2_scores(2))
    apply (rule conjI, rule ex2_scores(3))
    apply (rule c)
    done
qed

text \<open>
  C4 as stated fails on a grid of one by four points whose end points are outside the
  mesh, with \<open>Ex = 0.1\<close> at the two points inside and \<open>Ey = 1\<close> and \<open>- 1\<close>. No
  component is negligible, and the components have no value at \<open>(0, 0)\<close>, so that no
  sum over all grid points is taken: the x-mirror score of \<^verbatim>\<open>symmetries\<close> is
  \<open>(0.2 + 0.2) / 4 = 0.1\<close>, from the two points inside the mesh. The score is not
  below 0.1, so the stated label is \<open>- 1\<close>; \<^verbatim>\<open>symmetries\<close> returns the label \<open>1\<close>.
\<close>

theorem label_at_threshold:
  "symmetries ex_interp 1 1 4 (1 / 100000) = Inr [[1, 1, 1]] \<and>
   ex_interp 0 = (ex_Ex, ex_Ey) \<and>
   ex_Ex 0 0 = None \<and>
   zero_negligible 1 4 (1 / 100000) ex_Ex = Inr ex_Ex \<and>
   zero_negligible 1 4 (1 / 100000) ex_Ey = Inr ex_Ey \<and>
   sigma_x 1 4 ex_Ex ex_Ey = 1 / 10 \<and>
   spec_label (sigma_x 1 4 ex_Ex ex_Ey) 0.1 = - 1"
proof -
  have i: "ex_interp 0 = (ex_Ex, ex_Ey)" by (simp add: ex_interp_def)
  have n: "ex_Ex 0 0 = None" by (simp add: ex_Ex_def)
  have s: "sigma_x 1 4 ex_Ex ex_Ey = 1 / 10" unfolding sigma_x_spec by (rule ex_scores(3))
  have "spec_label (sigma_x 1 4 ex_Ex ex_Ey) 0.1 = - 1"
    unfolding s by (simp add: spec_label_def)
  with ex_symmetries i n ex_zero_negligible s show ?thesis by blast
qed

subsection \<open>Grid points outside the mesh\<close>


end
